theory Spec2Isabelle
  imports Main "HOL-Library.Word"
begin

unbundle bit_operations_syntax

section \<open>Values shared by the credential subsystem\<close>

text \<open>
  A \<open>Buffer\<close> is a list of bytes. Text is a byte string: a \<open>string\<close> stands for the
  UTF-8 bytes of the JavaScript string, so encoding and decoding text are the two
  conversions between \<open>char\<close> and \<open>byte\<close>.
\<close>

type_synonym byte = "8 word"
type_synonym bytes = "byte list"

definition utf8_encode :: "string \<Rightarrow> bytes" where
  "utf8_encode s = map (\<lambda>c. of_nat (of_char c)) s"

definition utf8_decode :: "bytes \<Rightarrow> string" where
  "utf8_decode bs = map (\<lambda>b. char_of (unat b)) bs"

text \<open>
  What \<open>JSON.parse\<close> returns. Numbers are the integers (every number this subsystem
  stores is a millisecond timestamp). An object is the list of its properties, each name
  once.
\<close>

datatype json =
    JNull
  | JBool bool
  | JNum int
  | JStr string
  | JArr "json list"
  | JObj "(string \<times> json) list"

text \<open>Reading a property: \<open>undefined\<close> (here \<open>None\<close>) on anything but an object that has it.\<close>

fun get_prop :: "string \<Rightarrow> json \<Rightarrow> json option" where
  "get_prop k (JObj kvs) = map_of kvs k"
| "get_prop k v = None"

text \<open>
  An exception: \<open>Error m\<close> is \<open>new Error(m)\<close> thrown by the code of this repository,
  \<open>Thrown m\<close> is an exception raised inside a library or by the runtime
  (\<open>SyntaxError\<close>, \<open>TypeError\<close>, a rejected HTTP request).
\<close>

datatype error = Error string | Thrown string

fun message :: "error \<Rightarrow> string" where
  "message (Error m) = m"
| "message (Thrown m) = m"

text \<open>
  \<open>interface OAuth2Tokens\<close>. Each field is optional and nullable in the source; the code
  only ever tests a field for truthiness, so \<open>undefined\<close>, \<open>null\<close> and a missing
  property are all \<open>None\<close>.
\<close>

record OAuth2Tokens =
  access_token :: "string option"
  refresh_token :: "string option"
  expiry_date :: "int option"
  scope :: "string option"
  token_type :: "string option"

text \<open>The object that \<open>JSON.stringify(tokens)\<close> serialises: absent fields are left out.\<close>

definition field :: "string \<Rightarrow> ('a \<Rightarrow> json) \<Rightarrow> 'a option \<Rightarrow> (string \<times> json) list" where
  "field k mk v = (case v of None \<Rightarrow> [] | Some x \<Rightarrow> [(k, mk x)])"

definition tokens_json :: "OAuth2Tokens \<Rightarrow> json" where
  "tokens_json t = JObj
     (field ''access_token'' JStr (access_token t) @
      field ''refresh_token'' JStr (refresh_token t) @
      field ''expiry_date'' JNum (expiry_date t) @
      field ''scope'' JStr (scope t) @
      field ''token_type'' JStr (token_type t))"

text \<open>
  A parsed JSON value read at type \<open>OAuth2Tokens\<close>. A property holding a value of
  another JSON type lies outside the interface and is read as missing.
\<close>

definition str_prop :: "string \<Rightarrow> json \<Rightarrow> string option" where
  "str_prop k v = (case get_prop k v of Some (JStr s) \<Rightarrow> Some s | _ \<Rightarrow> None)"

definition num_prop :: "string \<Rightarrow> json \<Rightarrow> int option" where
  "num_prop k v = (case get_prop k v of Some (JNum n) \<Rightarrow> Some n | _ \<Rightarrow> None)"

definition json_tokens :: "json \<Rightarrow> OAuth2Tokens" where
  "json_tokens v =
     \<lparr> access_token = str_prop ''access_token'' v,
       refresh_token = str_prop ''refresh_token'' v,
       expiry_date = num_prop ''expiry_date'' v,
       scope = str_prop ''scope'' v,
       token_type = str_prop ''token_type'' v \<rparr>"

text \<open>JavaScript truthiness of an optional string (\<open>!!s\<close>): set and not empty.\<close>

definition truthy :: "string option \<Rightarrow> bool" where
  "truthy s = (case s of None \<Rightarrow> False | Some x \<Rightarrow> x \<noteq> [])"

subsection \<open>Hexadecimal text\<close>

text \<open>\<open>buf.toString('hex')\<close>: two lower-case digits per byte.\<close>

definition hexdigit :: "nat \<Rightarrow> char" where
  "hexdigit n = ''0123456789abcdef'' ! n"

definition to_hex :: "bytes \<Rightarrow> string" where
  "to_hex bs = concat (map (\<lambda>b. [hexdigit (unat b div 16), hexdigit (unat b mod 16)]) bs)"

text \<open>
  \<open>Buffer.from(s, 'hex')\<close>: digits of either case, two per byte; decoding stops at the
  first character that is not a hexadecimal digit and drops a trailing single digit.
\<close>

definition hexval :: "char \<Rightarrow> nat option" where
  "hexval c =
     (let n = of_char c :: nat in
      if 48 \<le> n \<and> n \<le> 57 then Some (n - 48)
      else if 97 \<le> n \<and> n \<le> 102 then Some (n - 87)
      else if 65 \<le> n \<and> n \<le> 70 then Some (n - 55)
      else None)"

fun from_hex :: "string \<Rightarrow> bytes" where
  "from_hex (a # b # cs) =
     (case (hexval a, hexval b) of
        (Some h, Some l) \<Rightarrow> of_nat (16 * h + l) # from_hex cs
      | _ \<Rightarrow> [])"
| "from_hex cs = []"

section \<open>The platform\<close>

text \<open>
  Everything the subsystem calls but does not implement: the operating system's host and
  user names, Node's \<open>crypto\<close> module, \<open>JSON\<close>, and the authorization server behind
  \<open>google-auth-library\<close>. They are parameters of the model.

  \<^item> \<open>pbkdf2_byte pw salt iters digest i\<close> is byte \<open>i\<close> of the PBKDF2 output stream
    (PBKDF2 truncates one stream to the requested length).
  \<^item> AES-256-GCM is a counter mode with a tag: \<open>ctr_byte key iv i\<close> is byte \<open>i\<close> of the
    key stream, \<open>tag_byte key iv ct i\<close> is byte \<open>i\<close> of the 16-byte tag of the
    ciphertext \<open>ct\<close>.
  \<^item> \<open>random_byte d i\<close> is byte \<open>i\<close> of the \<open>d\<close>-th call of \<open>crypto.randomBytes\<close>.
  \<^item> \<open>JSON_parse\<close> is \<open>None\<close> where \<open>JSON.parse\<close> throws a \<open>SyntaxError\<close>.
  \<^item> \<open>Buffer_from_object v\<close> is \<open>Buffer.from(v, 'hex')\<close> for a parsed array or object
    \<open>v\<close> (Node reads an array of numbers and a serialised \<open>Buffer\<close>), \<open>None\<close> where it
    throws a \<open>TypeError\<close>.
  \<^item> \<open>refreshAccessToken n r\<close> is the server's answer to the \<open>n\<close>-th refresh request
    of this process, made with refresh token \<open>r\<close>; \<open>getToken c\<close> its answer to the
    exchange of authorization code \<open>c\<close>.
\<close>

record platform =
  hostname :: string
  username :: string
  pbkdf2_byte :: "string \<Rightarrow> string \<Rightarrow> nat \<Rightarrow> string \<Rightarrow> nat \<Rightarrow> byte"
  ctr_byte :: "bytes \<Rightarrow> bytes \<Rightarrow> nat \<Rightarrow> byte"
  tag_byte :: "bytes \<Rightarrow> bytes \<Rightarrow> bytes \<Rightarrow> nat \<Rightarrow> byte"
  random_byte :: "nat \<Rightarrow> nat \<Rightarrow> byte"
  JSON_stringify :: "json \<Rightarrow> string"
  JSON_parse :: "string \<Rightarrow> json option"
  Buffer_from_object :: "json \<Rightarrow> bytes option"
  refreshAccessToken :: "nat \<Rightarrow> string \<Rightarrow> error + OAuth2Tokens"
  getToken :: "string \<Rightarrow> error + OAuth2Tokens"

definition pbkdf2Sync :: "platform \<Rightarrow> string \<Rightarrow> string \<Rightarrow> nat \<Rightarrow> nat \<Rightarrow> string \<Rightarrow> bytes" where
  "pbkdf2Sync P pw salt iters keylen digest = map (pbkdf2_byte P pw salt iters digest) [0..<keylen]"

definition randomBytes :: "platform \<Rightarrow> nat \<Rightarrow> nat \<Rightarrow> bytes" where
  "randomBytes P d n = map (random_byte P d) [0..<n]"

definition xor_bytes :: "bytes \<Rightarrow> bytes \<Rightarrow> bytes" where
  "xor_bytes xs ys = map (\<lambda>(x, y). x XOR y) (zip xs ys)"

definition keystream :: "platform \<Rightarrow> bytes \<Rightarrow> bytes \<Rightarrow> nat \<Rightarrow> bytes" where
  "keystream P key iv n = map (ctr_byte P key iv) [0..<n]"

definition gcm_tag :: "platform \<Rightarrow> bytes \<Rightarrow> bytes \<Rightarrow> bytes \<Rightarrow> bytes" where
  "gcm_tag P key iv ct = map (tag_byte P key iv ct) [0..<16]"

text \<open>
  \<open>Buffer.from(v, 'hex')\<close> for a property \<open>v\<close> of a parsed JSON value: a string is
  decoded, \<open>undefined\<close>, \<open>null\<close>, a boolean and a number throw a \<open>TypeError\<close>.
\<close>

definition Buffer_from :: "platform \<Rightarrow> json option \<Rightarrow> bytes option" where
  "Buffer_from P v =
     (case v of
        Some (JStr s) \<Rightarrow> Some (from_hex s)
      | Some (JArr xs) \<Rightarrow> Buffer_from_object P (JArr xs)
      | Some (JObj kvs) \<Rightarrow> Buffer_from_object P (JObj kvs)
      | _ \<Rightarrow> None)"

text \<open>
  The tag lengths \<open>decipher.setAuthTag\<close> accepts for GCM when \<open>createDecipheriv\<close> was
  given no \<open>authTagLength\<close>, and the check \<open>decipher.final\<close> makes: the supplied tag
  against as many leading bytes of the computed one.
\<close>

definition valid_tag_length :: "nat \<Rightarrow> bool" where
  "valid_tag_length n = (n = 4 \<or> n = 8 \<or> (12 \<le> n \<and> n \<le> 16))"

definition tag_verifies :: "platform \<Rightarrow> bytes \<Rightarrow> bytes \<Rightarrow> bytes \<Rightarrow> bytes \<Rightarrow> bool" where
  "tag_verifies P key iv ct tag = (take (length tag) (gcm_tag P key iv ct) = tag)"

section \<open>TokenManager\<close>

text \<open>
  \<open>getDerivedKey\<close> (token-manager.ts, lines 253-256). The key has the 32 bytes that
  \<open>aes-256-gcm\<close> asks of \<open>createCipheriv\<close> and \<open>createDecipheriv\<close> (lemma
  \<open>length_getDerivedKey\<close> below).
\<close>

definition getDerivedKey :: "platform \<Rightarrow> bytes" where
  "getDerivedKey P =
     (let systemInfo = hostname P @ ''-'' @ username P
      in pbkdf2Sync P ''mcp-oauth'' systemInfo 100000 32 ''sha512'')"

text \<open>
  \<open>encryptTokenDataFile\<close> (lines 212-230). \<open>d\<close> numbers the call of
  \<open>crypto.randomBytes\<close> that draws the initialization vector.
\<close>

definition envelope :: "bytes \<Rightarrow> bytes \<Rightarrow> bytes \<Rightarrow> json" where
  "envelope iv authTag encrypted = JObj
     [(''type'', JStr ''file''),
      (''iv'', JStr (to_hex iv)),
      (''authTag'', JStr (to_hex authTag)),
      (''data'', JStr (to_hex encrypted))]"

definition encryptTokenDataFile :: "platform \<Rightarrow> nat \<Rightarrow> OAuth2Tokens \<Rightarrow> string" where
  "encryptTokenDataFile P d tokens =
     (let key = getDerivedKey P;
          iv = randomBytes P d 16;
          plain = utf8_encode (JSON_stringify P (tokens_json tokens));
          encrypted = xor_bytes plain (keystream P key iv (length plain));
          authTag = gcm_tag P key iv encrypted
      in JSON_stringify P (envelope iv authTag encrypted))"

text \<open>
  \<open>decryptTokenDataFile\<close> (lines 235-248). Each \<open>Inl\<close> is a statement of the source
  that throws: \<open>JSON.parse\<close>, reading a property of \<open>null\<close>, \<open>Buffer.from\<close> on
  something it cannot read, \<open>decipher.update\<close> on something that is not a string
  (\<open>JSON.parse\<close> yields no \<open>Buffer\<close>), \<open>createDecipheriv\<close> on an
  empty initialization vector, \<open>setAuthTag\<close> on a tag of invalid length,
  \<open>decipher.final\<close> on a tag that does not verify, and \<open>JSON.parse\<close> of the plaintext.
\<close>

definition decryptTokenDataFile :: "platform \<Rightarrow> string \<Rightarrow> error + json" where
  "decryptTokenDataFile P encryptedData =
     (let key = getDerivedKey P in
      case JSON_parse P encryptedData of
        None \<Rightarrow> Inl (Thrown ''SyntaxError: Unexpected token'')
      | Some encrypted \<Rightarrow>
          if encrypted = JNull then Inl (Thrown ''TypeError: Cannot read properties of null'')
          else (case Buffer_from P (get_prop ''iv'' encrypted) of
            None \<Rightarrow> Inl (Thrown ''TypeError: The first argument must be of type string'')
          | Some iv \<Rightarrow>
              if iv = [] then Inl (Thrown ''Invalid initialization vector'')
              else (case Buffer_from P (get_prop ''authTag'' encrypted) of
                None \<Rightarrow> Inl (Thrown ''TypeError: The first argument must be of type string'')
              | Some authTag \<Rightarrow>
                  if \<not> valid_tag_length (length authTag)
                  then Inl (Thrown ''Invalid authentication tag length'')
                  else (case get_prop ''data'' encrypted of
                    Some (JStr dataHex) \<Rightarrow>
                      let data = from_hex dataHex;
                          plain = xor_bytes data (keystream P key iv (length data))
                      in if \<not> tag_verifies P key iv data authTag
                         then Inl (Thrown ''Unsupported state or unable to authenticate data'')
                         else (case JSON_parse P (utf8_decode plain) of
                           None \<Rightarrow> Inl (Thrown ''SyntaxError: Unexpected token'')
                         | Some v \<Rightarrow> Inr v)
                  | _ \<Rightarrow> Inl (Thrown ''TypeError: The data argument must be of type string'')))))"

section \<open>The world the subsystem acts on\<close>

text \<open>
  One interactive authorization, as the outside world plays it: whether \<open>open(authUrl)\<close>
  manages to start a browser, whether the callback port is free for \<open>server.listen\<close>, and
  the HTTP requests sent to the callback port, in arrival order.

  A request has its arrival time in milliseconds after the listener started, the \<open>code\<close>
  and \<open>error\<close> parameters of its query string, and the connection it travels on:
  \<open>open_connection\<close> holds when it comes over a connection that the server accepted earlier
  and that is still open (a browser keeps its connection alive for its next requests),
  and fails when the request needs a new connection.
\<close>

record query =
  code :: "string option"
  error_param :: "string option"

record request =
  arrival :: nat
  open_connection :: bool
  params :: query

record flow =
  browser_opens :: bool
  port_free :: bool
  requests :: "request list"

text \<open>
  \<^item> \<open>now\<close>: the reading of \<open>Date.now()\<close>, the milliseconds elapsed since the epoch;
    one call reads one time.
  \<^item> \<open>tokenFile\<close>: the contents of \<open>~/.mcp/default-tokens/default.json\<close>, if it exists.
  \<^item> \<open>writeError\<close>: the message \<open>fs.writeFile\<close> fails with, if it fails.
  \<^item> \<open>keychain\<close>: the passwords \<open>keytar\<close> holds by service and account; \<open>None\<close> when
    \<open>keytar\<close> cannot be imported or used.
  \<^item> \<open>draws\<close>: the calls of \<open>crypto.randomBytes\<close> so far.
  \<^item> \<open>refreshes\<close>: the refresh requests sent to the authorization server so far.
  \<^item> \<open>flows\<close>: the interactive authorizations still to come; \<open>browsers\<close>: the consent
    pages opened so far.
\<close>

record world =
  now :: nat
  tokenFile :: "string option"
  writeError :: "string option"
  keychain :: "(string \<times> string \<Rightarrow> string option) option"
  draws :: nat
  refreshes :: nat
  flows :: "flow list"
  browsers :: nat

subsection \<open>Storing\<close>

definition serviceName :: string where
  "serviceName = ''mcp-oauth-tokens''"

text \<open>\<open>`${this.provider}-default`\<close>, the provider being \<open>'default'\<close> (the constructor's fallback).\<close>

definition accountName :: string where
  "accountName = ''default'' @ ''-default''"

definition keychain_reference :: json where
  "keychain_reference = JObj
     [(''type'', JStr ''keychain''),
      (''service'', JStr serviceName),
      (''account'', JStr accountName)]"

text \<open>\<open>encryptWithKeychain\<close> (lines 154-173).\<close>

definition encryptWithKeychain :: "platform \<Rightarrow> OAuth2Tokens \<Rightarrow> world \<Rightarrow> (error + string) \<times> world" where
  "encryptWithKeychain P tokens w =
     (case keychain w of
        None \<Rightarrow> (Inl (Error (''Keychain encryption failed: '' @ ''Cannot find package keytar'')), w)
      | Some kc \<Rightarrow>
          let serializedData = JSON_stringify P (tokens_json tokens) in
          (Inr (JSON_stringify P keychain_reference),
           w\<lparr>keychain := Some (kc((serviceName, accountName) \<mapsto> serializedData))\<rparr>))"

text \<open>\<open>encryptTokenData\<close> (lines 119-131): the keychain first, the file encryption on any failure.\<close>

definition encryptTokenData :: "platform \<Rightarrow> OAuth2Tokens \<Rightarrow> world \<Rightarrow> string \<times> world" where
  "encryptTokenData P tokens w =
     (case encryptWithKeychain P tokens w of
        (Inr result, w') \<Rightarrow> (result, w')
      | (Inl e, w') \<Rightarrow> (encryptTokenDataFile P (draws w') tokens, w'\<lparr>draws := draws w' + 1\<rparr>))"

text \<open>\<open>storeTokens\<close> (lines 31-58); \<open>None\<close> is the normal return.\<close>

definition storeTokens :: "platform \<Rightarrow> OAuth2Tokens \<Rightarrow> world \<Rightarrow> error option \<times> world" where
  "storeTokens P tokens w =
     (case encryptTokenData P tokens w of
        (encryptedData, w') \<Rightarrow>
          (case writeError w' of
             None \<Rightarrow> (None, w'\<lparr>tokenFile := Some encryptedData\<rparr>)
           | Some errorMessage \<Rightarrow> (Some (Error (''Token storage failed: '' @ errorMessage)), w')))"

subsection \<open>Loading\<close>

text \<open>
  \<open>decryptFromKeychain\<close> (lines 178-192): every failure inside is rethrown as
  \<open>Keychain decryption failed\<close>.
\<close>

definition decryptFromKeychain :: "platform \<Rightarrow> world \<Rightarrow> json \<Rightarrow> error + json" where
  "decryptFromKeychain P w reference =
     (case keychain w of
        None \<Rightarrow> Inl (Error (''Keychain decryption failed: '' @ ''Cannot find package keytar''))
      | Some kc \<Rightarrow>
          (case (get_prop ''service'' reference, get_prop ''account'' reference) of
             (Some (JStr service), Some (JStr account)) \<Rightarrow>
               (case kc (service, account) of
                  None \<Rightarrow> Inl (Error (''Keychain decryption failed: '' @ ''No data found in keychain''))
                | Some tokenData \<Rightarrow>
                    if tokenData = [] then
                      Inl (Error (''Keychain decryption failed: '' @ ''No data found in keychain''))
                    else (case JSON_parse P tokenData of
                      None \<Rightarrow> Inl (Error (''Keychain decryption failed: '' @ ''Unexpected token''))
                    | Some v \<Rightarrow> Inr v))
           | _ \<Rightarrow> Inl (Error (''Keychain decryption failed: '' @ ''Parameter must be a string''))))"

text \<open>
  \<open>decryptTokenData\<close> (lines 136-149). Whatever throws inside the \<open>try\<close> block, the
  \<open>catch\<close> block runs the file decryption on the same data.
\<close>

definition decryptTokenData :: "platform \<Rightarrow> world \<Rightarrow> string \<Rightarrow> error + json" where
  "decryptTokenData P w encryptedData =
     (case JSON_parse P encryptedData of
        None \<Rightarrow> decryptTokenDataFile P encryptedData
      | Some reference \<Rightarrow>
          if reference = JNull then decryptTokenDataFile P encryptedData
          else if get_prop ''type'' reference = Some (JStr ''keychain'') then
            (case decryptFromKeychain P w reference of
               Inr v \<Rightarrow> Inr v
             | Inl e \<Rightarrow> decryptTokenDataFile P encryptedData)
          else
            (case decryptTokenDataFile P encryptedData of
               Inr v \<Rightarrow> Inr v
             | Inl e \<Rightarrow> decryptTokenDataFile P encryptedData))"

text \<open>
  What the callers of \<open>getTokens\<close> see of the value it returns. Reading
  \<open>tokens.access_token\<close> for the log line throws on \<open>null\<close>, inside the \<open>try\<close> block;
  a falsy value is returned as it is and every caller takes it for "no tokens".
\<close>

definition as_tokens :: "json \<Rightarrow> OAuth2Tokens option" where
  "as_tokens v =
     (if v = JNull \<or> v = JBool False \<or> v = JNum 0 \<or> v = JStr [] then None
      else Some (json_tokens v))"

text \<open>\<open>getTokens\<close> (lines 63-93); \<open>None\<close> is \<open>null\<close>.\<close>

definition getTokens :: "platform \<Rightarrow> world \<Rightarrow> OAuth2Tokens option" where
  "getTokens P w =
     (case tokenFile w of
        None \<Rightarrow> None
      | Some encryptedData \<Rightarrow>
          (case decryptTokenData P w encryptedData of
             Inr tokens \<Rightarrow> as_tokens tokens
           | Inl e \<Rightarrow> None))"

section \<open>GoogleOAuthClient\<close>

text \<open>\<open>isTokenExpired\<close> (google-oauth-client.ts, lines 134-138).\<close>

definition isTokenExpired :: "world \<Rightarrow> OAuth2Tokens \<Rightarrow> bool" where
  "isTokenExpired w tokens =
     (let buffer = 5 * 60 * 1000;
          expiryTime = (case expiry_date tokens of None \<Rightarrow> 0 | Some e \<Rightarrow> e)
      in int (now w) + buffer \<ge> expiryTime)"

text \<open>
  \<open>refreshTokens\<close> (lines 122-129): one request to the authorization server, then the
  answer is stored.
\<close>

definition refreshTokens :: "platform \<Rightarrow> string \<Rightarrow> world \<Rightarrow> (error + OAuth2Tokens) \<times> world" where
  "refreshTokens P refreshToken w =
     (let w1 = w\<lparr>refreshes := refreshes w + 1\<rparr> in
      case refreshAccessToken P (refreshes w) refreshToken of
        Inl e \<Rightarrow> (Inl e, w1)
      | Inr credentials \<Rightarrow>
          (case storeTokens P credentials w1 of
             (Some e, w2) \<Rightarrow> (Inl e, w2)
           | (None, w2) \<Rightarrow> (Inr credentials, w2)))"

subsection \<open>The callback listener\<close>

text \<open>
  The state of \<open>startCallbackServer\<close> (lines 143-195): whether the HTTP server still
  accepts connections, the promise (\<open>None\<close> while pending, then the value it resolved
  with or the error it rejected with), and the status codes of the responses sent.
\<close>

record listener =
  listening :: bool
  promise :: "(error + string) option"
  responses :: "nat list"

text \<open>\<open>resolve\<close> and \<open>reject\<close>: a promise settles once.\<close>

definition settle :: "error + string \<Rightarrow> listener \<Rightarrow> listener" where
  "settle r L = (case promise L of None \<Rightarrow> L\<lparr>promise := Some r\<rparr> | Some x \<Rightarrow> L)"

text \<open>
  The request handler given to \<open>http.createServer\<close>; \<open>the\<close> reads a parameter that the
  test before it found truthy.
\<close>

definition handler :: "query \<Rightarrow> listener \<Rightarrow> listener" where
  "handler queryObject L =
     (if truthy (code queryObject) then
        settle (Inr (the (code queryObject)))
          (L\<lparr>responses := responses L @ [200], listening := False\<rparr>)
      else if truthy (error_param queryObject) then
        settle (Inl (Error (''OAuth authorization failed: '' @ the (error_param queryObject))))
          (L\<lparr>responses := responses L @ [400], listening := False\<rparr>)
      else L\<lparr>responses := responses L @ [400]\<rparr>)"

text \<open>
  \<open>server.close()\<close> stops the server from accepting new connections and keeps the
  connections it has; the handler itself never asks whether the server was closed. So a
  request reaches the handler while the server listens, and also afterwards when it
  comes over a connection that is still open. A request that needs a new connection
  after the close is refused: nothing answers it.
\<close>

definition deliver :: "request \<Rightarrow> listener \<Rightarrow> listener" where
  "deliver r L = (if listening L \<or> open_connection r then handler (params r) L else L)"

text \<open>The callback of \<open>setTimeout\<close>.\<close>

definition on_timeout :: "listener \<Rightarrow> listener" where
  "on_timeout L = settle (Inl (Error ''OAuth authorization timeout'')) (L\<lparr>listening := False\<rparr>)"

definition timeout_ms :: nat where
  "timeout_ms = 5 * 60 * 1000"

text \<open>
  The event loop: the requests in arrival order, the timer firing before the first
  request that arrives at or after \<open>timeout_ms\<close>, or after the last request.
\<close>

fun serve :: "bool \<Rightarrow> listener \<Rightarrow> request list \<Rightarrow> listener" where
  "serve fired L [] = (if fired then L else on_timeout L)"
| "serve fired L (r # rs) =
     (if \<not> fired \<and> timeout_ms \<le> arrival r then serve True (deliver r (on_timeout L)) rs
      else serve fired (deliver r L) rs)"

text \<open>
  \<open>startCallbackServer\<close> (lines 143-195). When the port is taken, \<open>server.listen\<close> emits
  an \<open>'error'\<close> event; the server has no listener for it, so it is thrown as an uncaught
  exception and the process ends: no request is answered, the timer never fires and the
  promise is left pending.
\<close>

definition startCallbackServer :: "bool \<Rightarrow> request list \<Rightarrow> listener" where
  "startCallbackServer free rs =
     (if free then serve False \<lparr>listening = True, promise = None, responses = []\<rparr> rs
      else \<lparr>listening = False, promise = None, responses = []\<rparr>)"

subsection \<open>Authorization and the access token\<close>

text \<open>\<open>exchangeCodeForTokens\<close> (lines 113-117).\<close>

definition exchangeCodeForTokens :: "platform \<Rightarrow> string \<Rightarrow> world \<Rightarrow> error option \<times> world" where
  "exchangeCodeForTokens P authCode w =
     (case getToken P authCode of
        Inl e \<Rightarrow> (Some e, w)
      | Inr tokens \<Rightarrow> storeTokens P tokens w)"

text \<open>
  \<open>authorize\<close> (lines 88-108). It plays the next interactive flow of the world; when
  none is left nobody answers and the listener times out. The listener is started
  first: on a taken port the uncaught exception of \<open>server.listen\<close> ends the process, and
  the call with it. \<open>Promise.all\<close> rejects when \<open>open\<close> does. On a free port the promise of
  the listener is never left pending (lemma \<open>startCallbackServer_settles\<close> below).
\<close>

definition idle :: flow where
  "idle = \<lparr>browser_opens = True, port_free = True, requests = []\<rparr>"

definition authorize :: "platform \<Rightarrow> world \<Rightarrow> error option \<times> world" where
  "authorize P w =
     (let f = (case flows w of [] \<Rightarrow> idle | f # fs \<Rightarrow> f);
          w1 = w\<lparr>flows := tl (flows w), browsers := browsers w + 1\<rparr>
      in case promise (startCallbackServer (port_free f) (requests f)) of
           None \<Rightarrow> (Some (Thrown ''listen EADDRINUSE''), w1)
         | Some settled \<Rightarrow>
             if \<not> browser_opens f then (Some (Thrown ''spawn xdg-open ENOENT''), w1)
             else (case settled of
               Inr authCode \<Rightarrow> exchangeCodeForTokens P authCode w1
             | Inl e \<Rightarrow> (Some e, w1)))"

text \<open>
  An authorization that returns normally has consumed one interactive flow of the world:
  the recursion of \<open>getValidAccessToken\<close> below ends.
\<close>

lemma storeTokens_frame:
  assumes "storeTokens P t w = (r, w')"
  shows "flows w' = flows w" "now w' = now w" "refreshes w' = refreshes w"
    "browsers w' = browsers w" "writeError w' = writeError w"
  using assms
  by (auto simp: storeTokens_def encryptTokenData_def encryptWithKeychain_def Let_def
      split: option.splits prod.splits sum.splits)

lemma promise_idle:
  "promise (startCallbackServer True []) = Some (Inl (Error ''OAuth authorization timeout''))"
  by (simp add: startCallbackServer_def on_timeout_def settle_def)

lemma promise_settle: "promise (settle r L) \<noteq> None"
  by (simp add: settle_def split: option.splits)

lemma promise_deliver: "promise L \<noteq> None \<Longrightarrow> promise (deliver r L) \<noteq> None"
  by (auto simp: deliver_def handler_def settle_def split: option.splits)

lemma promise_on_timeout: "promise (on_timeout L) \<noteq> None"
  by (simp add: on_timeout_def promise_settle)

lemma promise_serve: "(fired \<longrightarrow> promise L \<noteq> None) \<Longrightarrow> promise (serve fired L rs) \<noteq> None"
proof (induction rs arbitrary: fired L)
  case Nil
  then show ?case using promise_on_timeout by auto
next
  case (Cons r rs)
  show ?case
  proof (cases "\<not> fired \<and> timeout_ms \<le> arrival r")
    case True
    then show ?thesis
      by (simp add: Cons.IH promise_deliver promise_on_timeout)
  next
    case False
    then have "serve fired L (r # rs) = serve fired (deliver r L) rs"
      by auto
    moreover have "fired \<longrightarrow> promise (deliver r L) \<noteq> None"
      using Cons.prems by (simp add: promise_deliver)
    ultimately show ?thesis by (simp add: Cons.IH)
  qed
qed

text \<open>
  Once the server listens, the timer settles the promise at the latest: \<open>authorize\<close>
  never waits forever.
\<close>

lemma startCallbackServer_settles: "promise (startCallbackServer True rs) \<noteq> None"
  by (simp add: startCallbackServer_def promise_serve)

lemma authorize_flows:
  assumes "authorize P w = (None, w')"
  shows "flows w \<noteq> []" and "flows w' = tl (flows w)"
proof -
  show "flows w \<noteq> []"
    using assms
    by (auto simp: authorize_def Let_def idle_def promise_idle split: if_splits)
  show "flows w' = tl (flows w)"
    using assms
    by (auto simp: authorize_def Let_def exchangeCodeForTokens_def
        split: if_splits option.splits sum.splits dest: storeTokens_frame(1))
qed

lemma authorize_decreases:
  "(x, w') = authorize P w \<Longrightarrow> x = None \<Longrightarrow>
     ((P, w'), (P, w)) \<in> measure (\<lambda>(P, w). length (flows w))"
  using authorize_flows [of P w w'] by (cases "flows w") auto

text \<open>
  \<open>getValidAccessToken\<close> (lines 58-83). \<open>the\<close> reads a field that the test before it
  found truthy.
\<close>

function getValidAccessToken :: "platform \<Rightarrow> world \<Rightarrow> (error + string) \<times> world" where
  "getValidAccessToken P w =
     (case getTokens P w of
        None \<Rightarrow>
          (case authorize P w of
             (Some e, w') \<Rightarrow> (Inl e, w')
           | (None, w') \<Rightarrow> getValidAccessToken P w')
      | Some tokens \<Rightarrow>
          if isTokenExpired w tokens then
            (if \<not> truthy (refresh_token tokens) then
               (Inl (Error ''No refresh token available for token refresh''), w)
             else
               (case refreshTokens P (the (refresh_token tokens)) w of
                  (Inl e, w') \<Rightarrow> (Inl e, w')
                | (Inr refreshedTokens, w') \<Rightarrow>
                    if \<not> truthy (access_token refreshedTokens) then
                      (Inl (Error ''Failed to refresh access token''), w')
                    else (Inr (the (access_token refreshedTokens)), w')))
          else if \<not> truthy (access_token tokens) then
            (Inl (Error ''No access token available''), w)
          else (Inr (the (access_token tokens)), w))"
  by pat_completeness auto
termination
  apply (relation "measure (\<lambda>(P, w). length (flows w))")
   apply simp
  apply (rule authorize_decreases; assumption)
  done

declare getValidAccessToken.simps [simp del]

text \<open>
  \<open>isAuthenticated\<close> (lines 219-226). \<open>getTokens\<close> catches every exception itself, so
  the \<open>catch\<close> block here is never entered.
\<close>

definition isAuthenticated :: "platform \<Rightarrow> world \<Rightarrow> bool \<times> world" where
  "isAuthenticated P w =
     (case getTokens P w of
        None \<Rightarrow> (False, w)
      | Some tokens \<Rightarrow> (truthy (access_token tokens) \<and> \<not> isTokenExpired w tokens, w))"

section \<open>Encoding lemmas\<close>

lemma hexval_hexdigit: "n < 16 \<Longrightarrow> hexval (hexdigit n) = Some n"
proof -
  have "list_all (\<lambda>n. hexval (hexdigit n) = Some n) [0..<16]"
    by code_simp
  moreover assume "n < 16"
  ultimately show ?thesis
    by (simp add: list_all_iff)
qed

lemma from_hex_to_hex: "from_hex (to_hex bs) = bs"
proof (induction bs)
  case Nil
  then show ?case by (simp add: to_hex_def)
next
  case (Cons b bs)
  have hi: "unat b div 16 < 16"
    using unsigned_less [of b, where ?'a = nat] by (simp add: less_mult_imp_div_less)
  have "(of_nat (16 * (unat b div 16) + unat b mod 16) :: byte) = b"
    by simp
  with Cons hi show ?case
    by (simp add: to_hex_def hexval_hexdigit)
qed

lemma utf8_decode_encode: "utf8_decode (utf8_encode s) = s"
  by (induction s) (simp_all add: utf8_decode_def utf8_encode_def unat_of_nat)

lemma xor_bytes_keystream:
  "length ks = length p \<Longrightarrow> xor_bytes (xor_bytes p ks) ks = p"
  by (induction p ks rule: list_induct2') (simp_all add: xor_bytes_def xor.assoc)

lemma length_xor_bytes: "length ks = length p \<Longrightarrow> length (xor_bytes p ks) = length p"
  by (simp add: xor_bytes_def)

lemma length_keystream: "length (keystream P key iv n) = n"
  by (simp add: keystream_def)

lemma length_gcm_tag: "length (gcm_tag P key iv ct) = 16"
  by (simp add: gcm_tag_def)

lemma length_randomBytes: "length (randomBytes P d n) = n"
  by (simp add: randomBytes_def)

lemma length_getDerivedKey: "length (getDerivedKey P) = 32"
  by (simp add: getDerivedKey_def pbkdf2Sync_def)

lemma json_tokens_tokens_json: "json_tokens (tokens_json t) = t"
  by (cases "access_token t"; cases "refresh_token t"; cases "expiry_date t"; cases "scope t";
      cases "token_type t")
     (simp_all add: json_tokens_def tokens_json_def field_def str_prop_def num_prop_def)

section \<open>The file envelope\<close>

text \<open>The contract of \<open>JSON\<close> that the round trip relies on: parsing undoes serialising.\<close>

definition JSON_law :: "platform \<Rightarrow> bool" where
  "JSON_law P = (\<forall>v. JSON_parse P (JSON_stringify P v) = Some v)"

text \<open>
  The initialization vector, tag and ciphertext that \<open>encryptTokenDataFile\<close> puts in
  its envelope.
\<close>

definition sealed :: "platform \<Rightarrow> nat \<Rightarrow> OAuth2Tokens \<Rightarrow> bytes \<times> bytes \<times> bytes" where
  "sealed P d tokens =
     (let key = getDerivedKey P;
          iv = randomBytes P d 16;
          plain = utf8_encode (JSON_stringify P (tokens_json tokens));
          encrypted = xor_bytes plain (keystream P key iv (length plain))
      in (iv, gcm_tag P key iv encrypted, encrypted))"

lemma encryptTokenDataFile_sealed:
  "sealed P d tokens = (iv, authTag, encrypted) \<Longrightarrow>
   encryptTokenDataFile P d tokens = JSON_stringify P (envelope iv authTag encrypted)"
  by (auto simp: sealed_def encryptTokenDataFile_def Let_def)

lemma valid_tag_length_16: "valid_tag_length 16"
  by (simp add: valid_tag_length_def)

lemma tag_verifies_gcm_tag: "tag_verifies P key iv ct (gcm_tag P key iv ct)"
  by (simp add: tag_verifies_def)

lemma randomBytes_nonempty: "randomBytes P d 16 \<noteq> []"
  using length_randomBytes [of P d 16] by auto

lemma decrypt_envelope:
  assumes "JSON_parse P s = Some (envelope iv authTag data)"
  shows "decryptTokenDataFile P s =
     (if iv = [] then Inl (Thrown ''Invalid initialization vector'')
      else if \<not> valid_tag_length (length authTag) then Inl (Thrown ''Invalid authentication tag length'')
      else if \<not> tag_verifies P (getDerivedKey P) iv data authTag
        then Inl (Thrown ''Unsupported state or unable to authenticate data'')
      else (case JSON_parse P (utf8_decode (xor_bytes data (keystream P (getDerivedKey P) iv (length data)))) of
              None \<Rightarrow> Inl (Thrown ''SyntaxError: Unexpected token'')
            | Some v \<Rightarrow> Inr v))"
  using assms
  by (simp add: decryptTokenDataFile_def envelope_def Buffer_from_def from_hex_to_hex Let_def)

lemma file_roundtrip:
  assumes "JSON_law P"
  shows "decryptTokenDataFile P (encryptTokenDataFile P d tokens) = Inr (tokens_json tokens)"
proof -
  obtain iv authTag encrypted where s: "sealed P d tokens = (iv, authTag, encrypted)"
    by (cases "sealed P d tokens")
  let ?key = "getDerivedKey P"
  let ?plain = "utf8_encode (JSON_stringify P (tokens_json tokens))"
  from s have iv: "iv = randomBytes P d 16"
    and enc: "encrypted = xor_bytes ?plain (keystream P ?key iv (length ?plain))"
    and tag: "authTag = gcm_tag P ?key iv encrypted"
    by (auto simp: sealed_def Let_def)
  have len: "length encrypted = length ?plain"
    by (simp add: enc length_xor_bytes length_keystream)
  have unxor: "xor_bytes encrypted (keystream P ?key iv (length encrypted)) = ?plain"
    unfolding len unfolding enc by (rule xor_bytes_keystream) (simp add: length_keystream)
  have parse: "JSON_parse P (encryptTokenDataFile P d tokens) = Some (envelope iv authTag encrypted)"
    using assms by (simp add: encryptTokenDataFile_sealed [OF s] JSON_law_def)
  show ?thesis
    using assms
    by (simp add: decrypt_envelope [OF parse] unxor utf8_decode_encode JSON_law_def
        iv [symmetric] tag length_gcm_tag valid_tag_length_16 tag_verifies_gcm_tag)
      (simp add: iv randomBytes_nonempty)
qed

lemma as_tokens_tokens_json: "as_tokens (tokens_json t) = Some t"
  by (simp add: as_tokens_def json_tokens_tokens_json) (simp add: tokens_json_def)

lemma getTokens_file:
  assumes "JSON_law P" and "tokenFile w = Some (encryptTokenDataFile P d tokens)"
  shows "getTokens P w = Some tokens"
proof -
  obtain iv authTag encrypted where s: "sealed P d tokens = (iv, authTag, encrypted)"
    by (cases "sealed P d tokens")
  have parse: "JSON_parse P (encryptTokenDataFile P d tokens) = Some (envelope iv authTag encrypted)"
    using assms(1) by (simp add: encryptTokenDataFile_sealed [OF s] JSON_law_def)
  have "decryptTokenData P w (encryptTokenDataFile P d tokens) = Inr (tokens_json tokens)"
    by (simp add: decryptTokenData_def parse file_roundtrip [OF assms(1)])
      (simp add: envelope_def)
  then show ?thesis
    by (simp add: getTokens_def assms(2) as_tokens_tokens_json)
qed

section \<open>A platform to run the model on\<close>

text \<open>
  A stand-in for \<open>JSON.stringify\<close> and \<open>JSON.parse\<close> with their contract: a total
  serialiser and a parser that inverts it (lemma \<open>demo_parse_enc\<close>). The syntax is a
  simpler one than JSON's: lengths in unary, strings length-prefixed.
\<close>

fun enc_nat :: "nat \<Rightarrow> string" where
  "enc_nat 0 = ''.''"
| "enc_nat (Suc n) = CHR ''i'' # enc_nat n"

fun dec_nat :: "string \<Rightarrow> (nat \<times> string) option" where
  "dec_nat [] = None"
| "dec_nat (c # cs) =
     (if c = CHR ''.'' then Some (0, cs)
      else if c = CHR ''i'' then (case dec_nat cs of Some (n, rest) \<Rightarrow> Some (Suc n, rest) | None \<Rightarrow> None)
      else None)"

definition enc_str :: "string \<Rightarrow> string" where
  "enc_str s = enc_nat (length s) @ s"

definition dec_str :: "string \<Rightarrow> (string \<times> string) option" where
  "dec_str cs =
     (case dec_nat cs of
        None \<Rightarrow> None
      | Some (n, rest) \<Rightarrow> if n \<le> length rest then Some (take n rest, drop n rest) else None)"

fun enc :: "json \<Rightarrow> string" where
  "enc JNull = ''n''"
| "enc (JBool b) = (if b then ''t'' else ''f'')"
| "enc (JNum i) = (if i < 0 then ''-'' else ''+'') @ enc_nat (nat \<bar>i\<bar>)"
| "enc (JStr s) = CHR ''s'' # enc_str s"
| "enc (JArr xs) = CHR ''['' # concat (map (\<lambda>x. CHR '','' # enc x) xs) @ '']''"
| "enc (JObj kvs) = CHR ''{'' # concat (map (\<lambda>(k, v). CHR '','' # enc_str k @ enc v) kvs) @ ''}''"

fun dec :: "nat \<Rightarrow> string \<Rightarrow> (json \<times> string) option"
  and dec_items :: "nat \<Rightarrow> string \<Rightarrow> (json list \<times> string) option"
  and dec_members :: "nat \<Rightarrow> string \<Rightarrow> ((string \<times> json) list \<times> string) option"
where
  "dec 0 cs = None"
| "dec (Suc n) [] = None"
| "dec (Suc n) (c # cs) =
     (if c = CHR ''n'' then Some (JNull, cs)
      else if c = CHR ''t'' then Some (JBool True, cs)
      else if c = CHR ''f'' then Some (JBool False, cs)
      else if c = CHR ''+'' then
        (case dec_nat cs of Some (m, rest) \<Rightarrow> Some (JNum (int m), rest) | None \<Rightarrow> None)
      else if c = CHR ''-'' then
        (case dec_nat cs of Some (m, rest) \<Rightarrow> Some (JNum (- int m), rest) | None \<Rightarrow> None)
      else if c = CHR ''s'' then
        (case dec_str cs of Some (s, rest) \<Rightarrow> Some (JStr s, rest) | None \<Rightarrow> None)
      else if c = CHR ''['' then
        (case dec_items n cs of Some (xs, rest) \<Rightarrow> Some (JArr xs, rest) | None \<Rightarrow> None)
      else if c = CHR ''{'' then
        (case dec_members n cs of Some (kvs, rest) \<Rightarrow> Some (JObj kvs, rest) | None \<Rightarrow> None)
      else None)"
| "dec_items 0 cs = None"
| "dec_items (Suc n) [] = None"
| "dec_items (Suc n) (c # cs) =
     (if c = CHR '']'' then Some ([], cs)
      else if c = CHR '','' then
        (case dec n cs of
           None \<Rightarrow> None
         | Some (x, rest) \<Rightarrow>
             (case dec_items n rest of Some (xs, rest') \<Rightarrow> Some (x # xs, rest') | None \<Rightarrow> None))
      else None)"
| "dec_members 0 cs = None"
| "dec_members (Suc n) [] = None"
| "dec_members (Suc n) (c # cs) =
     (if c = CHR ''}'' then Some ([], cs)
      else if c = CHR '','' then
        (case dec_str cs of
           None \<Rightarrow> None
         | Some (k, rest) \<Rightarrow>
             (case dec n rest of
                None \<Rightarrow> None
              | Some (v, rest') \<Rightarrow>
                  (case dec_members n rest' of
                     Some (kvs, rest'') \<Rightarrow> Some ((k, v) # kvs, rest'')
                   | None \<Rightarrow> None)))
      else None)"

definition demo_parse :: "string \<Rightarrow> json option" where
  "demo_parse s = (case dec (length s) s of Some (v, []) \<Rightarrow> Some v | _ \<Rightarrow> None)"

lemma dec_nat_enc: "dec_nat (enc_nat n @ rest) = Some (n, rest)"
  by (induction n) auto

lemma dec_str_enc: "dec_str (enc_str s @ rest) = Some (s, rest)"
  by (simp add: dec_str_def enc_str_def dec_nat_enc)

lemma dec_enc: "length (enc v) \<le> n \<Longrightarrow> dec n (enc v @ rest) = Some (v, rest)"
proof (induction v arbitrary: n rest)
  case JNull
  then show ?case by (cases n) auto
next
  case (JBool b)
  then show ?case by (cases n; cases b) auto
next
  case (JNum i)
  then show ?case by (cases n; cases "i < 0") (auto simp: dec_nat_enc)
next
  case (JStr s)
  then show ?case by (cases n) (auto simp: dec_str_enc)
next
  case (JArr xs)
  have items: "length (concat (map (\<lambda>x. CHR '','' # enc x) ys) @ '']'') \<le> m \<Longrightarrow> set ys \<subseteq> set xs \<Longrightarrow>
      dec_items m (concat (map (\<lambda>x. CHR '','' # enc x) ys) @ '']'' @ rest) = Some (ys, rest)" for ys m
  proof (induction ys arbitrary: m)
    case Nil
    then show ?case by (cases m) auto
  next
    case (Cons y ys)
    then obtain k where m: "m = Suc k" by (cases m) auto
    have 1: "dec k (enc y @ (concat (map (\<lambda>x. CHR '','' # enc x) ys) @ '']'' @ rest))
        = Some (y, concat (map (\<lambda>x. CHR '','' # enc x) ys) @ '']'' @ rest)"
      using Cons.prems m by (intro JArr.IH) auto
    have 2: "dec_items k (concat (map (\<lambda>x. CHR '','' # enc x) ys) @ '']'' @ rest) = Some (ys, rest)"
      using Cons.prems m by (intro Cons.IH) auto
    show ?case using 1 2 by (simp add: m)
  qed
  obtain k where n: "n = Suc k" using JArr.prems by (cases n) auto
  show ?case using items [of xs k] JArr.prems by (simp add: n)
next
  case (JObj kvs)
  have members: "length (concat (map (\<lambda>(k, v). CHR '','' # enc_str k @ enc v) ys) @ ''}'') \<le> m \<Longrightarrow>
      set ys \<subseteq> set kvs \<Longrightarrow>
      dec_members m (concat (map (\<lambda>(k, v). CHR '','' # enc_str k @ enc v) ys) @ ''}'' @ rest) = Some (ys, rest)" for ys m
  proof (induction ys arbitrary: m)
    case Nil
    then show ?case by (cases m) auto
  next
    case (Cons y ys)
    obtain key val where y: "y = (key, val)" by (cases y)
    from Cons.prems obtain k where m: "m = Suc k" by (cases m) auto
    let ?more = "concat (map (\<lambda>(k, v). CHR '','' # enc_str k @ enc v) ys) @ ''}'' @ rest"
    have 1: "dec k (enc val @ ?more) = Some (val, ?more)"
      using Cons.prems m y by (intro JObj.IH [of y val]) auto
    have 2: "dec_members k ?more = Some (ys, rest)"
      using Cons.prems m y by (intro Cons.IH) auto
    show ?case using 1 2 by (simp add: m y dec_str_enc)
  qed
  obtain k where n: "n = Suc k" using JObj.prems by (cases n) auto
  show ?case using members [of kvs k] JObj.prems by (simp add: n)
qed

lemma demo_parse_enc: "demo_parse (enc v) = Some v"
  using dec_enc [of v "length (enc v)" "[]"] by (simp add: demo_parse_def)

text \<open>
  A platform with arbitrary but fixed stand-ins for the key derivation, the key stream,
  the tag and the random source, and an authorization server that knows one refresh
  token and one authorization code and issues a new access token for every refresh:
  the answer to request \<open>n\<close> carries \<open>access-\<close> followed by \<open>n\<close> in unary
  (\<open>access-.\<close>, \<open>access-i.\<close>, \<open>access-ii.\<close>).
\<close>

definition demo :: platform where
  "demo =
     \<lparr> hostname = ''workstation'',
       username = ''alice'',
       pbkdf2_byte = (\<lambda>pw salt iters digest i. of_nat (length pw + length salt + i)),
       ctr_byte = (\<lambda>key iv i. of_nat (length key + length iv + 7 * i)),
       tag_byte = (\<lambda>key iv ct i. sum_list ct + of_nat (length ct + i)),
       random_byte = (\<lambda>d i. of_nat (d + i)),
       JSON_stringify = enc,
       JSON_parse = demo_parse,
       Buffer_from_object = (\<lambda>v. None),
       refreshAccessToken = (\<lambda>n r.
         if r = ''refresh-1'' then
           Inr \<lparr> access_token = Some (''access-'' @ enc_nat n), refresh_token = Some r,
                 expiry_date = Some 5000000, scope = None, token_type = Some ''Bearer'' \<rparr>
         else Inl (Thrown ''invalid_grant'')),
       getToken = (\<lambda>c.
         if c = ''code-1'' then
           Inr \<lparr> access_token = Some ''access-first'', refresh_token = Some ''refresh-1'',
                 expiry_date = Some 4000000, scope = None, token_type = Some ''Bearer'' \<rparr>
         else Inl (Thrown ''invalid_grant'')) \<rparr>"

lemma JSON_law_demo: "JSON_law demo"
  by (simp add: JSON_law_def demo_def demo_parse_enc)

text \<open>
  Two stored credentials and the world that holds one of them in the encrypted file
  (no keychain), at clock reading 1000000: \<open>fresh_tokens\<close> expires well after the
  five-minute buffer, \<open>stale_tokens\<close> exactly at its end.
\<close>

definition fresh_tokens :: OAuth2Tokens where
  "fresh_tokens =
     \<lparr> access_token = Some ''access-old'', refresh_token = Some ''refresh-1'',
       expiry_date = Some 2000000, scope = None, token_type = Some ''Bearer'' \<rparr>"

definition stale_tokens :: OAuth2Tokens where
  "stale_tokens = fresh_tokens\<lparr>expiry_date := Some 1300000\<rparr>"

definition demo_world :: "OAuth2Tokens \<Rightarrow> world" where
  "demo_world tokens =
     \<lparr> now = 1000000,
       tokenFile = Some (encryptTokenDataFile demo 0 tokens),
       writeError = None,
       keychain = None,
       draws = 1,
       refreshes = 0,
       flows = [],
       browsers = 0 \<rparr>"

section \<open>The access token\<close>

lemma getValidAccessToken_stored:
  assumes "getTokens P w = Some tokens"
  shows "getValidAccessToken P w =
     (if isTokenExpired w tokens then
        (if \<not> truthy (refresh_token tokens) then
           (Inl (Error ''No refresh token available for token refresh''), w)
         else
           (case refreshTokens P (the (refresh_token tokens)) w of
              (Inl e, w') \<Rightarrow> (Inl e, w')
            | (Inr refreshedTokens, w') \<Rightarrow>
                if \<not> truthy (access_token refreshedTokens) then
                  (Inl (Error ''Failed to refresh access token''), w')
                else (Inr (the (access_token refreshedTokens)), w')))
      else if \<not> truthy (access_token tokens) then
        (Inl (Error ''No access token available''), w)
      else (Inr (the (access_token tokens)), w))"
  by (subst getValidAccessToken.simps) (simp add: assms)

lemma refreshTokens_count:
  "refreshTokens P r w = (res, w') \<Longrightarrow> refreshes w' = refreshes w + 1"
  by (auto simp: refreshTokens_def Let_def split: sum.splits prod.splits option.splits
      dest: storeTokens_frame(3))

lemma refreshTokens_answer:
  "refreshTokens P r w = (Inr credentials, w') \<Longrightarrow>
   refreshAccessToken P (refreshes w) r = Inr credentials"
  by (auto simp: refreshTokens_def Let_def split: sum.splits prod.splits option.splits)

lemma refreshTokens_rejected:
  "refreshAccessToken P (refreshes w) r = Inl e \<Longrightarrow>
   refreshTokens P r w = (Inl e, w\<lparr>refreshes := refreshes w + 1\<rparr>)"
  by (simp add: refreshTokens_def)

lemma isTokenExpired_iff:
  "isTokenExpired w tokens \<longleftrightarrow>
   (case expiry_date tokens of None \<Rightarrow> 0 | Some e \<Rightarrow> e) \<le> int (now w) + 5 * 60 * 1000"
  by (simp add: isTokenExpired_def)

lemma truthy_Some: "truthy (Some a) \<longleftrightarrow> a \<noteq> []"
  by (simp add: truthy_def)

lemma truthyE: "truthy x \<Longrightarrow> \<exists>a. x = Some a \<and> a \<noteq> []"
  by (cases x) (auto simp: truthy_def)

lemma getTokens_demo_world: "getTokens demo (demo_world tokens) = Some tokens"
  by (rule getTokens_file [OF JSON_law_demo]) (simp add: demo_world_def)

lemma refreshTokens_demo:
  "writeError w = None \<Longrightarrow> refreshes w = n \<Longrightarrow>
   fst (refreshTokens demo ''refresh-1'' w) =
     Inr \<lparr> access_token = Some (''access-'' @ enc_nat n), refresh_token = Some ''refresh-1'',
           expiry_date = Some 5000000, scope = None, token_type = Some ''Bearer'' \<rparr>"
  by (simp add: refreshTokens_def storeTokens_def encryptTokenData_def encryptWithKeychain_def
      demo_def Let_def split: option.splits prod.splits)

lemma getValidAccessToken_demo_stale:
  "fst (getValidAccessToken demo (demo_world stale_tokens)) = Inr ''access-.''"
proof -
  have ex: "isTokenExpired (demo_world stale_tokens) stale_tokens"
    by (simp add: isTokenExpired_def demo_world_def stale_tokens_def fresh_tokens_def)
  have rt: "refresh_token stale_tokens = Some ''refresh-1''"
    by (simp add: stale_tokens_def fresh_tokens_def)
  have "fst (refreshTokens demo ''refresh-1'' (demo_world stale_tokens)) =
     Inr \<lparr> access_token = Some (''access-'' @ enc_nat 0), refresh_token = Some ''refresh-1'',
           expiry_date = Some 5000000, scope = None, token_type = Some ''Bearer'' \<rparr>"
    by (rule refreshTokens_demo) (simp_all add: demo_world_def)
  then show ?thesis
    by (cases "refreshTokens demo ''refresh-1'' (demo_world stale_tokens)")
      (simp add: getValidAccessToken_stored [OF getTokens_demo_world] ex rt truthy_def)
qed

text \<open>A credential that is not expired and holds the empty string as its access token.\<close>

definition blank_tokens :: OAuth2Tokens where
  "blank_tokens = fresh_tokens\<lparr>access_token := Some []\<rparr>"

text \<open>
  C2, as the claim states it, fails: the stored credential expires more than five minutes
  after now, and the call does not return the stored access token string (the empty
  string) but throws \<open>No access token available\<close> (lines 79-81).
\<close>

theorem blank_access_token_counterexample:
  "getTokens demo (demo_world blank_tokens) = Some blank_tokens
   \<and> access_token blank_tokens = Some []
   \<and> expiry_date blank_tokens = Some 2000000
   \<and> int (now (demo_world blank_tokens)) + 5 * 60 * 1000 < 2000000
   \<and> getValidAccessToken demo (demo_world blank_tokens) =
       (Inl (Error ''No access token available''), demo_world blank_tokens)"
proof -
  have "\<not> isTokenExpired (demo_world blank_tokens) blank_tokens"
    by (simp add: isTokenExpired_def demo_world_def blank_tokens_def fresh_tokens_def)
  then have "getValidAccessToken demo (demo_world blank_tokens) =
      (Inl (Error ''No access token available''), demo_world blank_tokens)"
    by (simp add: getValidAccessToken_stored [OF getTokens_demo_world] truthy_def
        blank_tokens_def)
  then show ?thesis
    by (simp add: getTokens_demo_world) (simp add: blank_tokens_def fresh_tokens_def demo_world_def)
qed

text \<open>
  C2, amended. When the stored credential expires more than five minutes after now,
  \<open>getValidAccessToken\<close> leaves the world as it is (no refresh request, no
  authorization flow, the stored record untouched); it returns the stored access token
  itself when that is a non-empty string, and throws \<open>No access token available\<close>
  when the credential has no access token or an empty one. When the credential expires
  within five minutes of now, the bound included, every token the call returns was
  obtained by a refresh request made during the call: the request counter has gone up by
  one and the token is the one in the server's answer.
\<close>

theorem getValidAccessToken_expiry_buffer:
  assumes "getTokens P w = Some tokens" and "expiry_date tokens = Some e"
  shows "(int (now w) + 5 * 60 * 1000 < e \<longrightarrow>
            snd (getValidAccessToken P w) = w \<and>
            (\<forall>a. access_token tokens = Some a \<and> a \<noteq> [] \<longrightarrow>
               getValidAccessToken P w = (Inr a, w)) \<and>
            (\<not> truthy (access_token tokens) \<longrightarrow>
               getValidAccessToken P w = (Inl (Error ''No access token available''), w)))
       \<and> (e \<le> int (now w) + 5 * 60 * 1000 \<longrightarrow>
            (\<forall>tok w'. getValidAccessToken P w = (Inr tok, w') \<longrightarrow>
               refreshes w' = refreshes w + 1 \<and>
               (\<exists>r credentials. refresh_token tokens = Some r \<and>
                  refreshAccessToken P (refreshes w) r = Inr credentials \<and>
                  access_token credentials = Some tok)))"
proof (intro conjI impI allI)
  assume fresh: "int (now w) + 5 * 60 * 1000 < e"
  then have ne: "\<not> isTokenExpired w tokens"
    by (simp add: isTokenExpired_iff assms(2))
  show "snd (getValidAccessToken P w) = w"
    by (simp add: getValidAccessToken_stored [OF assms(1)] ne)
  show "getValidAccessToken P w = (Inl (Error ''No access token available''), w)"
    if "\<not> truthy (access_token tokens)"
    using that by (simp add: getValidAccessToken_stored [OF assms(1)] ne)
  fix a assume "access_token tokens = Some a \<and> a \<noteq> []"
  then show "getValidAccessToken P w = (Inr a, w)"
    by (simp add: getValidAccessToken_stored [OF assms(1)] ne truthy_Some)
next
  fix tok w'
  assume stale: "e \<le> int (now w) + 5 * 60 * 1000"
    and ret: "getValidAccessToken P w = (Inr tok, w')"
  from stale have ex: "isTokenExpired w tokens"
    by (simp add: isTokenExpired_iff assms(2))
  from ret have rt: "truthy (refresh_token tokens)"
    by (auto simp: getValidAccessToken_stored [OF assms(1)] ex split: if_splits)
  then obtain r where r: "refresh_token tokens = Some r" "r \<noteq> []"
    using truthyE by blast
  obtain res w2 where rf: "refreshTokens P r w = (res, w2)"
    by (cases "refreshTokens P r w")
  from ret obtain credentials where c: "res = Inr credentials" "truthy (access_token credentials)"
      "tok = the (access_token credentials)" "w' = w2"
    by (auto simp: getValidAccessToken_stored [OF assms(1)] ex rt r rf split: sum.splits if_splits)
  from c(2) obtain a where a: "access_token credentials = Some a"
    using truthyE by blast
  show "refreshes w' = refreshes w + 1"
    using refreshTokens_count [OF rf] c(4) by simp
  show "\<exists>r credentials. refresh_token tokens = Some r \<and>
          refreshAccessToken P (refreshes w) r = Inr credentials \<and>
          access_token credentials = Some tok"
    using refreshTokens_answer [of P r w credentials w2] rf c a r by auto
qed

theorem getValidAccessToken_expiry_buffer_witness:
  "getTokens demo (demo_world fresh_tokens) = Some fresh_tokens
   \<and> getValidAccessToken demo (demo_world fresh_tokens) = (Inr ''access-old'', demo_world fresh_tokens)
   \<and> getTokens demo (demo_world stale_tokens) = Some stale_tokens
   \<and> fst (getValidAccessToken demo (demo_world stale_tokens)) = Inr ''access-.''
   \<and> refreshes (snd (getValidAccessToken demo (demo_world stale_tokens))) = 1"
proof -
  have fresh: "getValidAccessToken demo (demo_world fresh_tokens) = (Inr ''access-old'', demo_world fresh_tokens)"
    using getValidAccessToken_expiry_buffer
      [of demo "demo_world fresh_tokens" fresh_tokens 2000000, OF getTokens_demo_world]
    by (simp add: fresh_tokens_def demo_world_def)
  have ret: "getValidAccessToken demo (demo_world stale_tokens) =
      (Inr ''access-.'', snd (getValidAccessToken demo (demo_world stale_tokens)))"
    using getValidAccessToken_demo_stale
    by (cases "getValidAccessToken demo (demo_world stale_tokens)") simp
  have "refreshes (snd (getValidAccessToken demo (demo_world stale_tokens))) =
      refreshes (demo_world stale_tokens) + 1"
    using getValidAccessToken_expiry_buffer
      [of demo "demo_world stale_tokens" stale_tokens 1300000, OF getTokens_demo_world] ret
    by (simp add: stale_tokens_def fresh_tokens_def demo_world_def)
  then show ?thesis
    using fresh getValidAccessToken_demo_stale
    by (simp add: getTokens_demo_world) (simp add: demo_world_def)
qed

text \<open>
  An expired credential without a refresh token, and one whose refresh token the
  authorization server rejects.
\<close>

definition no_refresh_tokens :: OAuth2Tokens where
  "no_refresh_tokens = stale_tokens\<lparr>refresh_token := None\<rparr>"

definition revoked_tokens :: OAuth2Tokens where
  "revoked_tokens = stale_tokens\<lparr>refresh_token := Some ''refresh-revoked''\<rparr>"

text \<open>
  C5. When the stored credential is expired (within the five-minute buffer) and has no
  refresh token, \<open>getValidAccessToken\<close> fails with the error of its own that says so,
  and the world is unchanged: no interactive flow was run and no request was sent. When
  the credential has a refresh token and the authorization server rejects the refresh,
  the call fails with the server's error as it is, after that one request; it returns no
  token.
\<close>

theorem getValidAccessToken_refresh_errors:
  assumes "getTokens P w = Some tokens" and "isTokenExpired w tokens"
  shows "(\<not> truthy (refresh_token tokens) \<longrightarrow>
            getValidAccessToken P w =
              (Inl (Error ''No refresh token available for token refresh''), w))
       \<and> (\<forall>r e. refresh_token tokens = Some r \<and> r \<noteq> [] \<and>
              refreshAccessToken P (refreshes w) r = Inl e \<longrightarrow>
            getValidAccessToken P w = (Inl e, w\<lparr>refreshes := refreshes w + 1\<rparr>))"
  by (auto simp: getValidAccessToken_stored [OF assms(1)] assms(2) truthy_Some
      refreshTokens_rejected)

theorem getValidAccessToken_refresh_errors_witness:
  "getTokens demo (demo_world no_refresh_tokens) = Some no_refresh_tokens
   \<and> isTokenExpired (demo_world no_refresh_tokens) no_refresh_tokens
   \<and> getValidAccessToken demo (demo_world no_refresh_tokens) =
       (Inl (Error ''No refresh token available for token refresh''), demo_world no_refresh_tokens)
   \<and> getTokens demo (demo_world revoked_tokens) = Some revoked_tokens
   \<and> isTokenExpired (demo_world revoked_tokens) revoked_tokens
   \<and> refreshAccessToken demo 0 ''refresh-revoked'' = Inl (Thrown ''invalid_grant'')
   \<and> getValidAccessToken demo (demo_world revoked_tokens) =
       (Inl (Thrown ''invalid_grant''), (demo_world revoked_tokens)\<lparr>refreshes := 1\<rparr>)"
proof -
  have e1: "isTokenExpired (demo_world no_refresh_tokens) no_refresh_tokens"
    by (simp add: isTokenExpired_def demo_world_def no_refresh_tokens_def stale_tokens_def
        fresh_tokens_def)
  have e2: "isTokenExpired (demo_world revoked_tokens) revoked_tokens"
    by (simp add: isTokenExpired_def demo_world_def revoked_tokens_def stale_tokens_def
        fresh_tokens_def)
  have rej: "refreshAccessToken demo 0 ''refresh-revoked'' = Inl (Thrown ''invalid_grant'')"
    by (simp add: demo_def)
  have 1: "getValidAccessToken demo (demo_world no_refresh_tokens) =
      (Inl (Error ''No refresh token available for token refresh''), demo_world no_refresh_tokens)"
    using getValidAccessToken_refresh_errors [OF getTokens_demo_world e1]
    by (simp add: no_refresh_tokens_def truthy_def)
  have 2: "getValidAccessToken demo (demo_world revoked_tokens) =
      (Inl (Thrown ''invalid_grant''), (demo_world revoked_tokens)\<lparr>refreshes := 1\<rparr>)"
    using getValidAccessToken_refresh_errors [OF getTokens_demo_world e2] rej
    by (simp add: revoked_tokens_def demo_world_def)
  show ?thesis
    using e1 e2 rej 1 2 by (simp add: getTokens_demo_world)
qed

section \<open>The authentication check\<close>

text \<open>A world whose token file does not parse.\<close>

definition corrupt_world :: world where
  "corrupt_world = (demo_world fresh_tokens)\<lparr>tokenFile := Some ''corrupt''\<rparr>"

lemma decryptTokenData_corrupt:
  "decryptTokenData demo w ''corrupt'' = Inl (Thrown ''SyntaxError: Unexpected token'')"
  by (simp add: decryptTokenData_def decryptTokenDataFile_def demo_def demo_parse_def)

text \<open>
  C8. \<open>isAuthenticated\<close> leaves the world as it is, and answers true exactly when a
  stored credential loads, its access token is a non-empty string and it is not expired
  under the five-minute buffer. In particular it answers false when there is no record
  and when the record does not decrypt.
\<close>

theorem isAuthenticated_pure:
  "snd (isAuthenticated P w) = w
   \<and> (fst (isAuthenticated P w) \<longleftrightarrow>
        (\<exists>tokens a. getTokens P w = Some tokens \<and> access_token tokens = Some a \<and> a \<noteq> [] \<and>
           \<not> isTokenExpired w tokens))
   \<and> (tokenFile w = None \<longrightarrow> fst (isAuthenticated P w) = False)
   \<and> (\<forall>encryptedData e. tokenFile w = Some encryptedData \<and>
          decryptTokenData P w encryptedData = Inl e \<longrightarrow> fst (isAuthenticated P w) = False)"
  by (auto simp: isAuthenticated_def getTokens_def truthy_def split: option.splits sum.splits)

theorem isAuthenticated_pure_witness:
  "isAuthenticated demo (demo_world fresh_tokens) = (True, demo_world fresh_tokens)
   \<and> isAuthenticated demo (demo_world stale_tokens) = (False, demo_world stale_tokens)
   \<and> tokenFile corrupt_world = Some ''corrupt''
   \<and> decryptTokenData demo corrupt_world ''corrupt'' = Inl (Thrown ''SyntaxError: Unexpected token'')
   \<and> isAuthenticated demo corrupt_world = (False, corrupt_world)"
proof -
  have f: "\<not> isTokenExpired (demo_world fresh_tokens) fresh_tokens"
    by (simp add: isTokenExpired_def demo_world_def fresh_tokens_def)
  have s: "isTokenExpired (demo_world stale_tokens) stale_tokens"
    by (simp add: isTokenExpired_def demo_world_def stale_tokens_def fresh_tokens_def)
  have a: "access_token fresh_tokens = Some ''access-old''"
    by (simp add: fresh_tokens_def)
  have 1: "isAuthenticated demo (demo_world fresh_tokens) = (True, demo_world fresh_tokens)"
    using isAuthenticated_pure [of demo "demo_world fresh_tokens"] f a
    by (cases "isAuthenticated demo (demo_world fresh_tokens)")
      (auto simp: getTokens_demo_world)
  have 2: "isAuthenticated demo (demo_world stale_tokens) = (False, demo_world stale_tokens)"
    using isAuthenticated_pure [of demo "demo_world stale_tokens"] s
    by (cases "isAuthenticated demo (demo_world stale_tokens)")
      (auto simp: getTokens_demo_world)
  have t: "tokenFile corrupt_world = Some ''corrupt''"
    by (simp add: corrupt_world_def)
  have 3: "isAuthenticated demo corrupt_world = (False, corrupt_world)"
    using isAuthenticated_pure [of demo corrupt_world] t decryptTokenData_corrupt [of corrupt_world]
    by (cases "isAuthenticated demo corrupt_world") auto
  show ?thesis
    using 1 2 3 t decryptTokenData_corrupt by simp
qed

text \<open>A credential without \<open>expiry_date\<close>.\<close>

definition undated_tokens :: OAuth2Tokens where
  "undated_tokens = fresh_tokens\<lparr>expiry_date := None\<rparr>"

text \<open>
  C9. A stored credential without \<open>expiry_date\<close> counts as expired (the missing
  expiry is read as 0): \<open>isAuthenticated\<close>
  answers false, and \<open>getValidAccessToken\<close> fails for lack of a refresh token or sends
  a refresh request, and any token it returns comes from the answer to that request,
  not from the stored record.
\<close>

theorem missing_expiry_is_expired:
  assumes "getTokens P w = Some tokens" and "expiry_date tokens = None"
  shows "isTokenExpired w tokens
       \<and> fst (isAuthenticated P w) = False
       \<and> (\<not> truthy (refresh_token tokens) \<longrightarrow>
            getValidAccessToken P w =
              (Inl (Error ''No refresh token available for token refresh''), w))
       \<and> (\<forall>r. refresh_token tokens = Some r \<and> r \<noteq> [] \<longrightarrow>
            refreshes (snd (getValidAccessToken P w)) = refreshes w + 1 \<and>
            (\<forall>tok. fst (getValidAccessToken P w) = Inr tok \<longrightarrow>
               (\<exists>credentials. refreshAccessToken P (refreshes w) r = Inr credentials \<and>
                  access_token credentials = Some tok)))"
proof -
  have ex: "isTokenExpired w tokens"
    using assms(2) by (simp add: isTokenExpired_iff)
  have auth: "fst (isAuthenticated P w) = False"
    by (simp add: isAuthenticated_def assms(1) ex)
  have none: "\<not> truthy (refresh_token tokens) \<longrightarrow>
      getValidAccessToken P w = (Inl (Error ''No refresh token available for token refresh''), w)"
    by (simp add: getValidAccessToken_stored [OF assms(1)] ex)
  have some: "refreshes (snd (getValidAccessToken P w)) = refreshes w + 1 \<and>
      (\<forall>tok. fst (getValidAccessToken P w) = Inr tok \<longrightarrow>
         (\<exists>credentials. refreshAccessToken P (refreshes w) r = Inr credentials \<and>
            access_token credentials = Some tok))"
    if r: "refresh_token tokens = Some r \<and> r \<noteq> []" for r
  proof -
    obtain res w2 where rf: "refreshTokens P r w = (res, w2)"
      by (cases "refreshTokens P r w")
    have cnt: "refreshes w2 = refreshes w + 1"
      by (rule refreshTokens_count [OF rf])
    show ?thesis
    proof (cases res)
      case (Inl e)
      then show ?thesis
        using r rf cnt by (simp add: getValidAccessToken_stored [OF assms(1)] ex truthy_Some)
    next
      case (Inr credentials)
      then have "refreshAccessToken P (refreshes w) r = Inr credentials"
        using refreshTokens_answer rf by blast
      then show ?thesis
        using r rf cnt Inr
        by (auto simp: getValidAccessToken_stored [OF assms(1)] ex truthy_Some
            dest: truthyE split: if_splits)
    qed
  qed
  from ex auth none some show ?thesis by blast
qed

theorem missing_expiry_is_expired_witness:
  "getTokens demo (demo_world undated_tokens) = Some undated_tokens
   \<and> expiry_date undated_tokens = None
   \<and> isTokenExpired (demo_world undated_tokens) undated_tokens
   \<and> fst (isAuthenticated demo (demo_world undated_tokens)) = False
   \<and> refreshes (snd (getValidAccessToken demo (demo_world undated_tokens))) = 1"
proof -
  have e: "expiry_date undated_tokens = None"
    by (simp add: undated_tokens_def)
  have r: "refresh_token undated_tokens = Some ''refresh-1''"
    by (simp add: undated_tokens_def fresh_tokens_def)
  show ?thesis
    using missing_expiry_is_expired [OF getTokens_demo_world e] e r
    by (simp add: getTokens_demo_world) (simp add: demo_world_def)
qed

section \<open>The key of the file envelope\<close>

text \<open>
  C10. The key of the file encryption is the 32-byte PBKDF2 output for the password
  \<open>mcp-oauth\<close>, the salt \<open>hostname-username\<close>, 100000 iterations and SHA-512. It
  depends on nothing else: two platforms with the same host name, user name and PBKDF2
  derive the same key whatever else differs between them, the key does not depend on the
  state of the world, and \<open>encryptTokenDataFile\<close> uses this one key for every
  credential.
\<close>

theorem getDerivedKey_deterministic:
  "getDerivedKey P =
     map (pbkdf2_byte P ''mcp-oauth'' (hostname P @ ''-'' @ username P) 100000 ''sha512'') [0..<32]
   \<and> length (getDerivedKey P) = 32
   \<and> (hostname P' = hostname P \<and> username P' = username P \<and> pbkdf2_byte P' = pbkdf2_byte P
        \<longrightarrow> getDerivedKey P' = getDerivedKey P)
   \<and> (\<forall>d tokens. \<exists>iv encrypted.
        encryptTokenDataFile P d tokens =
          JSON_stringify P (envelope iv (gcm_tag P (getDerivedKey P) iv encrypted) encrypted)
        \<and> encrypted = xor_bytes (utf8_encode (JSON_stringify P (tokens_json tokens)))
            (keystream P (getDerivedKey P) iv (length (JSON_stringify P (tokens_json tokens)))))"
  by (auto simp: getDerivedKey_def pbkdf2Sync_def encryptTokenDataFile_def Let_def utf8_encode_def)

theorem getDerivedKey_deterministic_witness:
  "hostname (demo\<lparr>random_byte := (\<lambda>d i. 0), JSON_stringify := (\<lambda>v. ''x'')\<rparr>) = hostname demo
   \<and> username (demo\<lparr>random_byte := (\<lambda>d i. 0), JSON_stringify := (\<lambda>v. ''x'')\<rparr>) = username demo
   \<and> pbkdf2_byte (demo\<lparr>random_byte := (\<lambda>d i. 0), JSON_stringify := (\<lambda>v. ''x'')\<rparr>) = pbkdf2_byte demo
   \<and> getDerivedKey (demo\<lparr>random_byte := (\<lambda>d i. 0), JSON_stringify := (\<lambda>v. ''x'')\<rparr>) = getDerivedKey demo
   \<and> length (getDerivedKey demo) = 32"
  using getDerivedKey_deterministic
    [where P = demo and P' = "demo\<lparr>random_byte := (\<lambda>d i. 0), JSON_stringify := (\<lambda>v. ''x'')\<rparr>"]
  by simp

section \<open>Loading a record that does not decrypt\<close>

text \<open>
  A world whose token file is a keychain reference while the keychain holds nothing under
  that service and account.
\<close>

definition orphan_world :: world where
  "orphan_world =
     (demo_world fresh_tokens)
       \<lparr>tokenFile := Some (JSON_stringify demo keychain_reference), keychain := Some Map.empty\<rparr>"

lemma parse_orphan:
  "JSON_parse demo (JSON_stringify demo keychain_reference) = Some keychain_reference"
  using JSON_law_demo by (simp add: JSON_law_def)

lemma decryptFromKeychain_orphan:
  "decryptFromKeychain demo orphan_world keychain_reference =
     Inl (Error ''Keychain decryption failed: No data found in keychain'')"
  by (simp add: decryptFromKeychain_def orphan_world_def keychain_reference_def)

lemma decryptTokenDataFile_orphan:
  "decryptTokenDataFile demo (JSON_stringify demo keychain_reference) =
     Inl (Thrown ''TypeError: The first argument must be of type string'')"
  by (simp add: decryptTokenDataFile_def parse_orphan)
    (simp add: keychain_reference_def Buffer_from_def)

lemma decryptTokenData_orphan:
  "decryptTokenData demo orphan_world (JSON_stringify demo keychain_reference) =
     Inl (Thrown ''TypeError: The first argument must be of type string'')"
  by (simp add: decryptTokenData_def parse_orphan decryptFromKeychain_orphan
      decryptTokenDataFile_orphan) (simp add: keychain_reference_def)

text \<open>
  C3, as the claim states it, fails: here a record exists, the keychain lookup fails, the
  file-based fallback fails, and \<open>getTokens\<close> returns \<open>None\<close> where the claim has it
  raise \<open>CorruptCredentialStore\<close>.
\<close>

theorem getTokens_undecryptable_counterexample:
  "tokenFile orphan_world = Some (JSON_stringify demo keychain_reference)
   \<and> decryptFromKeychain demo orphan_world keychain_reference =
       Inl (Error ''Keychain decryption failed: No data found in keychain'')
   \<and> decryptTokenDataFile demo (JSON_stringify demo keychain_reference) =
       Inl (Thrown ''TypeError: The first argument must be of type string'')
   \<and> getTokens demo orphan_world = None"
proof -
  have "getTokens demo orphan_world = None"
    using decryptTokenData_orphan by (simp add: getTokens_def orphan_world_def)
  with decryptFromKeychain_orphan decryptTokenDataFile_orphan show ?thesis
    by (simp add: orphan_world_def)
qed

text \<open>
  C3, amended. \<open>getTokens\<close> returns \<open>None\<close> when no record exists, and it also returns
  \<open>None\<close>, raising nothing, when a record exists and does not decrypt: then the
  file-based fallback has failed, and so has the keychain lookup if the record is a
  keychain reference. A record that decrypts is returned.
\<close>

theorem getTokens_never_fails:
  "(tokenFile w = None \<longrightarrow> getTokens P w = None)
   \<and> (\<forall>encryptedData e.
        tokenFile w = Some encryptedData \<and> decryptTokenData P w encryptedData = Inl e \<longrightarrow>
          getTokens P w = None
          \<and> decryptTokenDataFile P encryptedData = Inl e
          \<and> (\<forall>reference. JSON_parse P encryptedData = Some reference \<and>
                get_prop ''type'' reference = Some (JStr ''keychain'') \<longrightarrow>
                (\<exists>e'. decryptFromKeychain P w reference = Inl e')))
   \<and> (\<forall>encryptedData tokens.
        tokenFile w = Some encryptedData \<and> decryptTokenData P w encryptedData = Inr tokens \<longrightarrow>
          getTokens P w = as_tokens tokens)"
proof (intro conjI allI impI)
  show "getTokens P w = None" if "tokenFile w = None"
    using that by (simp add: getTokens_def)
next
  fix encryptedData e
  assume a: "tokenFile w = Some encryptedData \<and> decryptTokenData P w encryptedData = Inl e"
  then show "getTokens P w = None"
    by (simp add: getTokens_def)
  from a show "decryptTokenDataFile P encryptedData = Inl e"
    by (auto simp: decryptTokenData_def split: option.splits if_splits sum.splits)
  fix reference
  assume "JSON_parse P encryptedData = Some reference \<and>
      get_prop ''type'' reference = Some (JStr ''keychain'')"
  with a show "\<exists>e'. decryptFromKeychain P w reference = Inl e'"
    by (cases "decryptFromKeychain P w reference")
      (auto simp: decryptTokenData_def split: if_splits)
next
  fix encryptedData tokens
  assume "tokenFile w = Some encryptedData \<and> decryptTokenData P w encryptedData = Inr tokens"
  then show "getTokens P w = as_tokens tokens"
    by (simp add: getTokens_def)
qed

theorem getTokens_never_fails_witness:
  "tokenFile orphan_world = Some (JSON_stringify demo keychain_reference)
   \<and> decryptTokenData demo orphan_world (JSON_stringify demo keychain_reference) =
       Inl (Thrown ''TypeError: The first argument must be of type string'')
   \<and> getTokens demo orphan_world = None
   \<and> tokenFile ((demo_world fresh_tokens)\<lparr>tokenFile := None\<rparr>) = None
   \<and> getTokens demo ((demo_world fresh_tokens)\<lparr>tokenFile := None\<rparr>) = None
   \<and> getTokens demo (demo_world fresh_tokens) = Some fresh_tokens"
proof -
  have t: "tokenFile orphan_world = Some (JSON_stringify demo keychain_reference)"
    by (simp add: orphan_world_def)
  have 1: "getTokens demo orphan_world = None"
    using getTokens_never_fails [of orphan_world demo] t decryptTokenData_orphan by blast
  have 2: "getTokens demo ((demo_world fresh_tokens)\<lparr>tokenFile := None\<rparr>) = None"
    using getTokens_never_fails [of "(demo_world fresh_tokens)\<lparr>tokenFile := None\<rparr>" demo]
    by simp
  show ?thesis
    using t decryptTokenData_orphan 1 2 by (simp add: getTokens_demo_world)
qed

section \<open>Round trip and tampering of the file envelope\<close>

lemma decryptTokenDataFile_Inr:
  assumes "decryptTokenDataFile P s = Inr v"
  shows "\<exists>encrypted iv authTag dataHex.
           JSON_parse P s = Some encrypted \<and>
           Buffer_from P (get_prop ''iv'' encrypted) = Some iv \<and>
           Buffer_from P (get_prop ''authTag'' encrypted) = Some authTag \<and>
           get_prop ''data'' encrypted = Some (JStr dataHex) \<and>
           tag_verifies P (getDerivedKey P) iv (from_hex dataHex) authTag"
  using assms
  by (auto simp: decryptTokenDataFile_def Let_def
      split: option.splits if_splits json.splits)

lemma tag_verifies_16:
  "length authTag = 16 \<Longrightarrow> tag_verifies P key iv ct authTag \<longleftrightarrow> gcm_tag P key iv ct = authTag"
  by (auto simp: tag_verifies_def length_gcm_tag)

lemma sealed_parts:
  assumes "sealed P d tokens = (iv, authTag, encrypted)"
  shows "length authTag = 16" and "authTag = gcm_tag P (getDerivedKey P) iv encrypted"
  using assms by (auto simp: sealed_def Let_def length_gcm_tag)

lemma tokens_json_inject: "tokens_json a = tokens_json b \<Longrightarrow> a = b"
  using json_tokens_tokens_json by metis

lemma sealed_iv: "fst (sealed P d tokens) = randomBytes P d 16"
  by (simp add: sealed_def Let_def)

lemma encryptTokenDataFile_snd_sealed:
  "encryptTokenDataFile P d tokens =
     JSON_stringify P (envelope (randomBytes P d 16) (fst (snd (sealed P d tokens)))
       (snd (snd (sealed P d tokens))))"
  by (simp add: sealed_def encryptTokenDataFile_def Let_def)

text \<open>
  On any platform, the envelope of another credential under the same key and the same
  initialization vector differs in ciphertext or tag and decrypts to that credential.
\<close>

lemma forged_envelope:
  assumes "JSON_law P" and "tokens' \<noteq> tokens"
  shows "snd (sealed P d tokens') \<noteq> snd (sealed P d tokens)"
    and "decryptTokenDataFile P (encryptTokenDataFile P d tokens') = Inr (tokens_json tokens')"
proof -
  have rt: "decryptTokenDataFile P (encryptTokenDataFile P d t) = Inr (tokens_json t)" for t
    by (rule file_roundtrip [OF assms(1)])
  show "decryptTokenDataFile P (encryptTokenDataFile P d tokens') = Inr (tokens_json tokens')"
    by (rule rt)
  show "snd (sealed P d tokens') \<noteq> snd (sealed P d tokens)"
  proof
    assume "snd (sealed P d tokens') = snd (sealed P d tokens)"
    then have "encryptTokenDataFile P d tokens' = encryptTokenDataFile P d tokens"
      by (simp add: encryptTokenDataFile_snd_sealed)
    then have "tokens_json tokens' = tokens_json tokens"
      using rt [of tokens'] rt [of tokens] by simp
    with assms(2) show False using tokens_json_inject by blast
  qed
qed

lemma gcm_tag_demo_varies: "gcm_tag demo key iv ct \<noteq> replicate 16 x"
proof
  assume "gcm_tag demo key iv ct = replicate 16 x"
  then have "gcm_tag demo key iv ct ! 0 = x" and "gcm_tag demo key iv ct ! 1 = x"
    by simp_all
  then have "(sum_list ct + of_nat (length ct) :: byte) = sum_list ct + (of_nat (length ct) + 1)"
    by (simp add: gcm_tag_def demo_def)
  then show False by simp
qed

text \<open>
  C4, as the claim states it, fails. Take the envelope of \<open>fresh_tokens\<close> and replace
  its ciphertext and its tag by those of the envelope that the same key and the same
  initialization vector give for \<open>stale_tokens\<close>: the result is that second envelope,
  it differs from the first in ciphertext or tag, and it decrypts, to a different
  credential. Nothing here depends on the cipher (lemma \<open>forged_envelope\<close>): it is the
  round trip itself, applied to the second credential.
\<close>

theorem forged_envelope_counterexample:
  "fst (sealed demo 0 stale_tokens) = fst (sealed demo 0 fresh_tokens)
   \<and> snd (sealed demo 0 stale_tokens) \<noteq> snd (sealed demo 0 fresh_tokens)
   \<and> encryptTokenDataFile demo 0 stale_tokens =
       JSON_stringify demo (envelope (fst (sealed demo 0 fresh_tokens))
         (fst (snd (sealed demo 0 stale_tokens))) (snd (snd (sealed demo 0 stale_tokens))))
   \<and> decryptTokenDataFile demo (encryptTokenDataFile demo 0 stale_tokens) = Inr (tokens_json stale_tokens)
   \<and> json_tokens (tokens_json stale_tokens) \<noteq> fresh_tokens"
proof -
  have ne: "stale_tokens \<noteq> fresh_tokens"
  proof
    assume "stale_tokens = fresh_tokens"
    then have "expiry_date stale_tokens = expiry_date fresh_tokens" by simp
    then show False by (simp add: stale_tokens_def fresh_tokens_def)
  qed
  show ?thesis
    using ne forged_envelope [OF JSON_law_demo ne, of 0]
      encryptTokenDataFile_snd_sealed [of demo 0 stale_tokens]
    by (simp add: sealed_iv json_tokens_tokens_json)
qed

text \<open>
  C4, amended. Encrypting a credential with \<open>encryptTokenDataFile\<close> and decrypting the
  envelope with \<open>decryptTokenDataFile\<close> under the same derived key gives the credential
  back. Decryption succeeds only on an envelope whose tag verifies against its ciphertext
  under the derived key and its initialization vector. So a genuine envelope whose tag
  alone is replaced fails to decrypt unless the new tag is a leading part of the genuine
  one (any other tag of 16 bytes fails), and one whose ciphertext alone is replaced
  decrypts only if the new ciphertext has the very same tag. (An
  envelope whose ciphertext and tag are both replaced by a valid sealing of another
  credential decrypts to that credential: the counterexample above.)
\<close>

theorem file_envelope_roundtrip_and_tag_check:
  assumes "JSON_law P"
  shows "decryptTokenDataFile P (encryptTokenDataFile P d tokens) = Inr (tokens_json tokens)
       \<and> json_tokens (tokens_json tokens) = tokens
       \<and> (\<forall>s v. decryptTokenDataFile P s = Inr v \<longrightarrow>
            (\<exists>encrypted iv authTag dataHex.
               JSON_parse P s = Some encrypted \<and>
               Buffer_from P (get_prop ''iv'' encrypted) = Some iv \<and>
               Buffer_from P (get_prop ''authTag'' encrypted) = Some authTag \<and>
               get_prop ''data'' encrypted = Some (JStr dataHex) \<and>
               tag_verifies P (getDerivedKey P) iv (from_hex dataHex) authTag))
       \<and> (\<forall>iv authTag encrypted authTag'.
            sealed P d tokens = (iv, authTag, encrypted) \<and>
            take (length authTag') authTag \<noteq> authTag' \<longrightarrow>
            (\<exists>e. decryptTokenDataFile P (JSON_stringify P (envelope iv authTag' encrypted)) = Inl e))
       \<and> (\<forall>iv authTag encrypted encrypted' v.
            sealed P d tokens = (iv, authTag, encrypted) \<and>
            decryptTokenDataFile P (JSON_stringify P (envelope iv authTag encrypted')) = Inr v \<longrightarrow>
            gcm_tag P (getDerivedKey P) iv encrypted' = authTag)"
proof (intro conjI allI impI)
  show "decryptTokenDataFile P (encryptTokenDataFile P d tokens) = Inr (tokens_json tokens)"
    by (rule file_roundtrip [OF assms])
  show "json_tokens (tokens_json tokens) = tokens"
    by (rule json_tokens_tokens_json)
next
  fix s v assume "decryptTokenDataFile P s = Inr v"
  then show "\<exists>encrypted iv authTag dataHex.
      JSON_parse P s = Some encrypted \<and>
      Buffer_from P (get_prop ''iv'' encrypted) = Some iv \<and>
      Buffer_from P (get_prop ''authTag'' encrypted) = Some authTag \<and>
      get_prop ''data'' encrypted = Some (JStr dataHex) \<and>
      tag_verifies P (getDerivedKey P) iv (from_hex dataHex) authTag"
    by (rule decryptTokenDataFile_Inr)
next
  fix iv authTag encrypted authTag'
  assume a: "sealed P d tokens = (iv, authTag, encrypted) \<and>
      take (length authTag') authTag \<noteq> authTag'"
  then have tag: "authTag = gcm_tag P (getDerivedKey P) iv encrypted"
    using sealed_parts(2) by blast
  have parse: "JSON_parse P (JSON_stringify P (envelope iv authTag' encrypted)) =
      Some (envelope iv authTag' encrypted)"
    using assms by (simp add: JSON_law_def)
  have "\<not> tag_verifies P (getDerivedKey P) iv encrypted authTag'"
    using a tag by (auto simp: tag_verifies_def)
  then show "\<exists>e. decryptTokenDataFile P (JSON_stringify P (envelope iv authTag' encrypted)) = Inl e"
    by (simp add: decrypt_envelope [OF parse])
next
  fix iv authTag encrypted encrypted' v
  assume a: "sealed P d tokens = (iv, authTag, encrypted) \<and>
      decryptTokenDataFile P (JSON_stringify P (envelope iv authTag encrypted')) = Inr v"
  then have len: "length authTag = 16"
    using sealed_parts(1) by blast
  have parse: "JSON_parse P (JSON_stringify P (envelope iv authTag encrypted')) =
      Some (envelope iv authTag encrypted')"
    using assms by (simp add: JSON_law_def)
  from a have "tag_verifies P (getDerivedKey P) iv encrypted' authTag"
    by (auto simp: decrypt_envelope [OF parse] split: if_splits)
  then show "gcm_tag P (getDerivedKey P) iv encrypted' = authTag"
    by (simp add: tag_verifies_16 [OF len])
qed

theorem file_envelope_roundtrip_and_tag_check_witness:
  "JSON_law demo
   \<and> decryptTokenDataFile demo (encryptTokenDataFile demo 0 fresh_tokens) = Inr (tokens_json fresh_tokens)
   \<and> json_tokens (tokens_json fresh_tokens) = fresh_tokens
   \<and> (\<exists>e. decryptTokenDataFile demo
         (JSON_stringify demo (envelope (fst (sealed demo 0 fresh_tokens)) (replicate 16 0)
            (snd (snd (sealed demo 0 fresh_tokens))))) = Inl e)"
proof -
  obtain iv authTag encrypted where s: "sealed demo 0 fresh_tokens = (iv, authTag, encrypted)"
    by (cases "sealed demo 0 fresh_tokens")
  have "replicate 16 0 \<noteq> authTag"
    using sealed_parts(2) [OF s] gcm_tag_demo_varies [of "getDerivedKey demo" iv encrypted 0]
    by metis
  then have "take (length (replicate 16 (0 :: byte))) authTag \<noteq> replicate 16 0"
    using sealed_parts(1) [OF s] by auto
  then show ?thesis
    using file_envelope_roundtrip_and_tag_check [OF JSON_law_demo, of 0 fresh_tokens] s
      JSON_law_demo
    by auto
qed

section \<open>The callback listener settles once\<close>


text \<open>
  The status code the handler answers a request with (lemma \<open>responses_handler\<close>), and the
  answers to the requests that still reach the handler of a closed server: those that
  come over a connection that is still open.
\<close>

definition status :: "query \<Rightarrow> nat" where
  "status q = (if truthy (code q) then 200 else 400)"


lemma responses_handler: "responses (handler q L) = responses L @ [status q]"
  by (cases L) (auto simp: handler_def settle_def status_def split: option.splits)








section \<open>The request tracker\<close>

text \<open>
  Modelled from the spec: the Request Context of \<open>services/request-tracker.ts\<close>, which
  \<open>index.ts\<close> imports and which is not among the sources. The spec gives it the
  request identifier, the tool name, the optional progress token, the cancellation source
  (here its signal: whether it was triggered, and with which reason) and the time of
  registration.
\<close>

record RequestContext =
  requestId :: string
  toolName :: string
  progressToken :: "string option"
  aborted :: bool
  reason :: "string option"
  registeredAt :: int

type_synonym tracker = "string \<Rightarrow> RequestContext option"

datatype tracker_error = DuplicateRequestId

text \<open>
  Modelled from the spec: \<open>registerRequest(requestId, progressToken, toolName)\<close> of the
  missing \<open>RequestTracker\<close> "creates and stores a new Request Context; fails with
  \<open>DuplicateRequestId\<close> if the identifier is already registered".
\<close>

definition registerRequest ::
  "string \<Rightarrow> string option \<Rightarrow> string \<Rightarrow> int \<Rightarrow> tracker \<Rightarrow> tracker_error + RequestContext \<times> tracker" where
  "registerRequest rid token name time reg =
     (case reg rid of
        Some c \<Rightarrow> Inl DuplicateRequestId
      | None \<Rightarrow>
          let c = \<lparr> requestId = rid, toolName = name, progressToken = token,
                    aborted = False, reason = None, registeredAt = time \<rparr>
          in Inr (c, reg(rid \<mapsto> c)))"

text \<open>
  Modelled from the spec: \<open>cancelRequest(requestId, reason)\<close> of the missing
  \<open>RequestTracker\<close> "looks up the context; if present, triggers its cancellation source
  with the supplied reason and returns true; if absent (already completed, already
  cancelled, or unknown), returns false without error".
\<close>

definition cancelRequest :: "string \<Rightarrow> string option \<Rightarrow> tracker \<Rightarrow> bool \<times> tracker" where
  "cancelRequest rid why reg =
     (case reg rid of
        None \<Rightarrow> (False, reg)
      | Some c \<Rightarrow> (True, reg(rid \<mapsto> c\<lparr>aborted := True, reason := why\<rparr>)))"

text \<open>
  Modelled from the spec: \<open>cleanup(requestId)\<close> of the missing \<open>RequestTracker\<close>
  "unconditionally removes the context once the invocation has finished".
\<close>

definition cleanup :: "string \<Rightarrow> tracker \<Rightarrow> tracker" where
  "cleanup rid reg = reg(rid := None)"

text \<open>
  The handler of the cancellation notification (index.ts, lines 237-256), on the tracker
  and the log: it logs the notification, cancels, and logs once more when nothing was
  cancelled.
\<close>

definition onCancelled ::
  "string \<Rightarrow> string option \<Rightarrow> tracker \<times> string list \<Rightarrow> tracker \<times> string list" where
  "onCancelled rid why s =
     (case s of (reg, logged) \<Rightarrow>
        (case cancelRequest rid why reg of
           (cancelled, reg') \<Rightarrow>
             (reg', logged @ [''CANCELLATION_RECEIVED''] @
                (if \<not> cancelled then [''CANCELLATION_IGNORED''] else []))))"

text \<open>A tracker with one registered request.\<close>

definition one_request :: tracker where
  "one_request = Map.empty(''7'' \<mapsto>
     \<lparr> requestId = ''7'', toolName = ''gmail_list'', progressToken = Some ''p1'',
       aborted = False, reason = None, registeredAt = 1000000 \<rparr>)"

text \<open>
  C7. For a registered request id, \<open>cancelRequest\<close> returns true and leaves that
  context with its signal triggered with the supplied reason, every other context as it
  was. For an id that is not registered (never registered, or cleaned up) it returns
  false and the tracker is unchanged; the notification handler then only writes its two
  log lines. Cancelling right after a successful registration returns true.
\<close>

theorem cancelRequest_registered_or_not:
  "(\<forall>c. reg rid = Some c \<longrightarrow>
       fst (cancelRequest rid why reg) = True
       \<and> snd (cancelRequest rid why reg) rid = Some (c\<lparr>aborted := True, reason := why\<rparr>)
       \<and> (\<forall>other. other \<noteq> rid \<longrightarrow> snd (cancelRequest rid why reg) other = reg other))
   \<and> (reg rid = None \<longrightarrow> cancelRequest rid why reg = (False, reg))
   \<and> cancelRequest rid why Map.empty = (False, Map.empty)
   \<and> cancelRequest rid why (cleanup rid reg) = (False, cleanup rid reg)
   \<and> (\<forall>c reg'. registerRequest rid token name time reg = Inr (c, reg') \<longrightarrow>
         fst (cancelRequest rid why reg') = True
         \<and> (\<exists>c'. snd (cancelRequest rid why reg') rid = Some c' \<and> aborted c' \<and> reason c' = why))
   \<and> (reg rid = None \<longrightarrow>
         onCancelled rid why (reg, logged) =
           (reg, logged @ [''CANCELLATION_RECEIVED'', ''CANCELLATION_IGNORED'']))"
  by (auto simp: cancelRequest_def cleanup_def registerRequest_def onCancelled_def Let_def
      split: option.splits)

theorem cancelRequest_registered_or_not_witness:
  "fst (cancelRequest ''7'' (Some ''user'') one_request) = True
   \<and> snd (cancelRequest ''7'' (Some ''user'') one_request) ''7'' =
       Some \<lparr> requestId = ''7'', toolName = ''gmail_list'', progressToken = Some ''p1'',
              aborted = True, reason = Some ''user'', registeredAt = 1000000 \<rparr>
   \<and> one_request ''8'' = None
   \<and> cancelRequest ''8'' (Some ''user'') one_request = (False, one_request)
   \<and> registerRequest ''8'' None ''drive_get'' 1000001 one_request =
       Inr (\<lparr> requestId = ''8'', toolName = ''drive_get'', progressToken = None,
              aborted = False, reason = None, registeredAt = 1000001 \<rparr>,
            one_request(''8'' \<mapsto> \<lparr> requestId = ''8'', toolName = ''drive_get'', progressToken = None,
              aborted = False, reason = None, registeredAt = 1000001 \<rparr>))
   \<and> fst (cancelRequest ''8'' None
        (one_request(''8'' \<mapsto> \<lparr> requestId = ''8'', toolName = ''drive_get'', progressToken = None,
              aborted = False, reason = None, registeredAt = 1000001 \<rparr>))) = True"
proof -
  have r7: "one_request ''7'' = Some \<lparr> requestId = ''7'', toolName = ''gmail_list'',
      progressToken = Some ''p1'', aborted = False, reason = None, registeredAt = 1000000 \<rparr>"
    by (simp add: one_request_def)
  have r8: "one_request ''8'' = None"
    by (simp add: one_request_def)
  have reg8: "registerRequest ''8'' None ''drive_get'' 1000001 one_request =
       Inr (\<lparr> requestId = ''8'', toolName = ''drive_get'', progressToken = None,
              aborted = False, reason = None, registeredAt = 1000001 \<rparr>,
            one_request(''8'' \<mapsto> \<lparr> requestId = ''8'', toolName = ''drive_get'', progressToken = None,
              aborted = False, reason = None, registeredAt = 1000001 \<rparr>))"
    by (simp add: registerRequest_def r8 Let_def)
  show ?thesis
    using cancelRequest_registered_or_not [of one_request "''7''" "Some ''user''"] r7
      cancelRequest_registered_or_not [of one_request "''8''" "Some ''user''"] r8
      cancelRequest_registered_or_not [of one_request "''8''" None None "''drive_get''" 1000001] reg8
    by simp
qed

end
